theory Spec2Isabelle
  imports Main
begin

section \<open>Python string primitives\<close>

text \<open>
  Strings are modelled as \<^typ>\<open>string\<close> (lists of 8-bit characters), which is exact for
  ASCII text. The helpers below follow Python's \<^verbatim>\<open>str.lower\<close>, \<^verbatim>\<open>str.strip\<close>,
  \<^verbatim>\<open>str.split\<close>, \<^verbatim>\<open>str.startswith\<close>, the substring test \<^verbatim>\<open>a in b\<close> and
  \<^verbatim>\<open>re.search(r"\b" + re.escape(w) + r"\b", q)\<close> on that range; characters outside
  ASCII are left alone by \<open>lower\<close> and count as neither whitespace nor word characters.
\<close>

definition lower_char :: "char \<Rightarrow> char" where
  "lower_char c =
     (case map_of (zip ''ABCDEFGHIJKLMNOPQRSTUVWXYZ'' ''abcdefghijklmnopqrstuvwxyz'') c of
        None \<Rightarrow> c
      | Some d \<Rightarrow> d)"

definition lower :: "string \<Rightarrow> string" where
  "lower s = map lower_char s"

text \<open>\<^verbatim>\<open>str.isspace\<close> on ASCII: tab, LF, VT, FF, CR, the separators 0x1C..0x1F, space.\<close>

definition is_space :: "char \<Rightarrow> bool" where
  "is_space c =
     (c \<in> set [CHR 0x09, CHR 0x0A, CHR 0x0B, CHR 0x0C, CHR 0x0D,
                CHR 0x1C, CHR 0x1D, CHR 0x1E, CHR 0x1F, CHR 0x20])"

definition strip :: "string \<Rightarrow> string" where
  "strip s = rev (dropWhile is_space (rev (dropWhile is_space s)))"

text \<open>
  \<^verbatim>\<open>s.split()\<close> without a separator: maximal runs of non-whitespace, in order; \<open>cur\<close> is
  the run being read, reversed.
\<close>

fun split_acc :: "string \<Rightarrow> string \<Rightarrow> string list" where
  "split_acc cur [] = (if cur = [] then [] else [rev cur])"
| "split_acc cur (c # cs) =
     (if is_space c
      then (if cur = [] then split_acc [] cs else rev cur # split_acc [] cs)
      else split_acc (c # cur) cs)"

definition split :: "string \<Rightarrow> string list" where
  "split s = split_acc [] s"

fun startswith :: "string \<Rightarrow> string \<Rightarrow> bool" where
  "startswith s [] = True"
| "startswith [] (p # ps) = False"
| "startswith (c # cs) (p # ps) = (c = p \<and> startswith cs ps)"

text \<open>\<open>contains sub s\<close> is Python's \<^verbatim>\<open>sub in s\<close>.\<close>

fun contains :: "string \<Rightarrow> string \<Rightarrow> bool" where
  "contains sub [] = (sub = [])"
| "contains sub (c # cs) = (startswith (c # cs) sub \<or> contains sub cs)"

text \<open>\<^verbatim>\<open>\w\<close> on ASCII: letters, digits and the underscore.\<close>

definition is_word_char :: "char \<Rightarrow> bool" where
  "is_word_char c =
     (c \<in> set ''abcdefghijklmnopqrstuvwxyzABCDEFGHIJKLMNOPQRSTUVWXYZ0123456789_'')"

text \<open>
  \<^verbatim>\<open>\b\<close> holds between two positions when exactly one side is a word character; the
  start and the end of the string count as non-word.
\<close>

definition is_word_opt :: "char option \<Rightarrow> bool" where
  "is_word_opt c = (case c of None \<Rightarrow> False | Some x \<Rightarrow> is_word_char x)"

definition boundary :: "char option \<Rightarrow> char option \<Rightarrow> bool" where
  "boundary l r = (is_word_opt l \<noteq> is_word_opt r)"

definition head_opt :: "string \<Rightarrow> char option" where
  "head_opt s = (case s of [] \<Rightarrow> None | c # _ \<Rightarrow> Some c)"

text \<open>
  The pattern \<^verbatim>\<open>\bW\b\<close> matched at the current position: \<open>prev\<close> is the character
  just before it, \<open>s\<close> the rest of the subject.
\<close>

definition match_here :: "char option \<Rightarrow> string \<Rightarrow> string \<Rightarrow> bool" where
  "match_here prev w s =
     (startswith s w
      \<and> boundary prev (head_opt s)
      \<and> boundary (if w = [] then prev else Some (last w)) (head_opt (drop (length w) s)))"

fun search_from :: "char option \<Rightarrow> string \<Rightarrow> string \<Rightarrow> bool" where
  "search_from prev w [] = match_here prev w []"
| "search_from prev w (c # cs) = (match_here prev w (c # cs) \<or> search_from (Some c) w cs)"

definition re_search_word :: "string \<Rightarrow> string \<Rightarrow> bool" where
  "re_search_word w q = search_from None w q"

text \<open>\<^verbatim>\<open>str(n)\<close> for an integer: decimal digits, with a minus sign when negative.\<close>

fun str_nat :: "nat \<Rightarrow> string" where
  "str_nat n = (if n < 10 then [''0123456789'' ! n]
                else str_nat (n div 10) @ [''0123456789'' ! (n mod 10)])"

declare str_nat.simps [simp del]

definition str_int :: "int \<Rightarrow> string" where
  "str_int i = (if i < 0 then CHR ''-'' # str_nat (nat (- i)) else str_nat (nat i))"

section \<open>Configuration and the question answerer\<close>

text \<open>
  The configuration is a nested dictionary. Each fact table (\<^verbatim>\<open>personal\<close>,
  \<^verbatim>\<open>background\<close>, \<^verbatim>\<open>eligibility\<close>) is a record whose fields are optional: \<open>None\<close> is an
  absent key, so that every \<^verbatim>\<open>.get(key, default)\<close> of the source is a case split. An absent
  table is the table with every key absent. Numbers are integers. The three rule tables
  are association lists in their configured (insertion) order.
\<close>

record personal =
  first_name :: "string option"
  last_name :: "string option"
  email :: "string option"
  phone :: "string option"
  city :: "string option"
  country :: "string option"
  linkedin_profile :: "string option"
  github_url :: "string option"
  portfolio_url :: "string option"

record background =
  years_of_experience :: "int option"
  highest_education :: "string option"
  notice_period_days :: "int option"
  expected_salary :: "int option"
  currency :: "string option"

record eligibility =
  legally_authorized :: "bool option"
  require_sponsorship :: "bool option"

record answers_cfg =
  yes_no :: "(string \<times> bool) list"
  numeric :: "(string \<times> int) list"
  star_answers :: "(string \<times> string) list"

record config =
  cfg_personal :: personal
  cfg_background :: background
  cfg_eligibility :: eligibility
  cfg_answers :: answers_cfg

text \<open>
  A Python \<^verbatim>\<open>dict\<close> keeps insertion order; assigning to a key that is already present
  replaces the value and keeps the key's position.
\<close>

fun dict_set :: "('k \<times> 'v) list \<Rightarrow> 'k \<Rightarrow> 'v \<Rightarrow> ('k \<times> 'v) list" where
  "dict_set [] k v = [(k, v)]"
| "dict_set ((k', v') # d) k v =
     (if k' = k then (k', v) # d else (k', v') # dict_set d k v)"

text \<open>The comprehension \<^verbatim>\<open>{k.lower(): v for k, v in table.items()}\<close>.\<close>

definition lower_keys :: "(string \<times> 'v) list \<Rightarrow> (string \<times> 'v) list" where
  "lower_keys items = foldl (\<lambda>d (k, v). dict_set d (lower k) v) [] items"

record answerer =
  qa_personal :: personal
  qa_background :: background
  qa_eligibility :: eligibility
  yes_no_map :: "(string \<times> bool) list"
  numeric_map :: "(string \<times> int) list"
  star_map :: "(string \<times> string) list"

definition QuestionAnswerer :: "config \<Rightarrow> answerer" where
  "QuestionAnswerer cfg =
     \<lparr> qa_personal = cfg_personal cfg,
       qa_background = cfg_background cfg,
       qa_eligibility = cfg_eligibility cfg,
       yes_no_map = lower_keys (yes_no (cfg_answers cfg)),
       numeric_map = lower_keys (numeric (cfg_answers cfg)),
       star_map = lower_keys (star_answers (cfg_answers cfg)) \<rparr>"

definition get_or :: "'a option \<Rightarrow> 'a \<Rightarrow> 'a" where
  "get_or v d = (case v of None \<Rightarrow> d | Some x \<Rightarrow> x)"

definition is_yes_no_question :: "string \<Rightarrow> bool" where
  "is_yes_no_question q =
     list_ex (\<lambda>s. startswith q s)
       [''are '', ''is '', ''do '', ''will '', ''have '', ''can '', ''were '', ''did '']"

text \<open>The loop \<^verbatim>\<open>for key, val in table.items(): if key in q: return val\<close>.\<close>

fun first_rule :: "(string \<times> 'v) list \<Rightarrow> string \<Rightarrow> 'v option" where
  "first_rule [] q = None"
| "first_rule ((key, val) # rules) q =
     (if contains key q then Some val else first_rule rules q)"

definition lookup_yes_no :: "answerer \<Rightarrow> string \<Rightarrow> bool" where
  "lookup_yes_no qa q =
     (case first_rule (yes_no_map qa) q of
        Some val \<Rightarrow> val
      | None \<Rightarrow>
          if contains ''sponsorship'' q \<or> contains ''visa'' q
          then get_or (require_sponsorship (qa_eligibility qa)) False
          else if contains ''authorized'' q \<or> contains ''eligible'' q
          then get_or (legally_authorized (qa_eligibility qa)) True
          else True)"

definition lookup_numeric :: "answerer \<Rightarrow> string \<Rightarrow> int" where
  "lookup_numeric qa q =
     (case first_rule (numeric_map qa) q of
        Some val \<Rightarrow> val
      | None \<Rightarrow>
          if contains ''experience'' q
          then get_or (years_of_experience (qa_background qa)) 2
          else if contains ''notice'' q
          then get_or (notice_period_days (qa_background qa)) 0
          else if contains ''salary'' q \<or> contains ''ctc'' q \<or> contains ''compensation'' q
          then get_or (expected_salary (qa_background qa)) 600000
          else 0)"

definition dropdown_hint :: "answerer \<Rightarrow> string \<Rightarrow> string" where
  "dropdown_hint qa q =
     (if contains ''country'' q then get_or (country (qa_personal qa)) ''India''
      else if contains ''currency'' q then get_or (currency (qa_background qa)) ''INR''
      else if contains ''education'' q \<or> contains ''degree'' q
      then get_or (highest_education (qa_background qa)) ''Bachelor''
      else if contains ''experience'' q
      then str_int (get_or (years_of_experience (qa_background qa)) 2)
      else [])"

text \<open>
  The narrative scan of \<^verbatim>\<open>_free_text_answer\<close>: a rule fires when
  \<^verbatim>\<open>any(re.search(...word...) for word in key.split())\<close> holds.
\<close>

definition star_rule_fires :: "string \<Rightarrow> string \<Rightarrow> bool" where
  "star_rule_fires key q = list_ex (\<lambda>word. re_search_word word q) (split key)"

fun first_star :: "(string \<times> string) list \<Rightarrow> string \<Rightarrow> string option" where
  "first_star [] q = None"
| "first_star ((key, answer) # rules) q =
     (if star_rule_fires key q then Some (strip answer) else first_star rules q)"

definition cover_letter_text :: string where
  "cover_letter_text =
     ''I am deeply passionate about cybersecurity and incident response. '' @
     ''My hands-on experience with SIEM tools and threat detection aligns '' @
     ''well with this role and I am eager to contribute to your SOC team.''"

definition generic_text :: string where
  "generic_text =
     ''I am a cybersecurity professional with experience in SOC operations, '' @
     ''threat detection, and incident response. I am excited about this '' @
     ''opportunity and look forward to contributing to your team.''"

definition common_field_answer :: "answerer \<Rightarrow> string \<Rightarrow> string" where
  "common_field_answer qa q =
     (if contains ''first name'' q then get_or (first_name (qa_personal qa)) []
      else if contains ''last name'' q \<or> contains ''surname'' q
      then get_or (last_name (qa_personal qa)) []
      else if contains ''email'' q then get_or (email (qa_personal qa)) []
      else if contains ''phone'' q \<or> contains ''mobile'' q
      then get_or (phone (qa_personal qa)) []
      else if contains ''city'' q then get_or (city (qa_personal qa)) ''Bangalore''
      else if contains ''linkedin'' q then get_or (linkedin_profile (qa_personal qa)) []
      else if contains ''github'' q then get_or (github_url (qa_personal qa)) []
      else if contains ''portfolio'' q \<or> contains ''website'' q
      then get_or (portfolio_url (qa_personal qa)) []
      else if contains ''salary'' q \<or> contains ''ctc'' q \<or> contains ''compensation'' q
      then str_int (get_or (expected_salary (qa_background qa)) 600000)
      else if contains ''notice'' q
      then str_int (get_or (notice_period_days (qa_background qa)) 0)
      else if contains ''experience'' q
      then str_int (get_or (years_of_experience (qa_background qa)) 2)
      else if contains ''cover letter'' q \<or> contains ''motivation'' q
      then cover_letter_text
      else generic_text)"

definition free_text_answer :: "answerer \<Rightarrow> string \<Rightarrow> string" where
  "free_text_answer qa q =
     (case first_star (star_map qa) q of
        Some a \<Rightarrow> a
      | None \<Rightarrow> common_field_answer qa q)"

definition answer :: "answerer \<Rightarrow> string \<Rightarrow> string \<Rightarrow> string" where
  "answer qa question_text field_type =
     (let q = strip (lower question_text) in
      if field_type = ''boolean'' then (if lookup_yes_no qa q then ''Yes'' else ''No'')
      else if field_type = ''numeric'' then str_int (lookup_numeric qa q)
      else if field_type = ''dropdown'' then dropdown_hint qa q
      else free_text_answer qa q)"

text \<open>The loop \<^verbatim>\<open>for opt in options: if cond(opt): return opt\<close>.\<close>

definition first_option :: "(string \<Rightarrow> bool) \<Rightarrow> string list \<Rightarrow> string option" where
  "first_option cond options = find cond options"

text \<open>
  \<^verbatim>\<open>best_dropdown_option\<close>. The yes/no branch always returns; each of the four later
  branches returns only on a hit and otherwise falls through to the next one.
\<close>

definition education_pick :: "answerer \<Rightarrow> string \<Rightarrow> string list \<Rightarrow> string option" where
  "education_pick qa q options =
     (if contains ''education'' q \<or> contains ''degree'' q
      then (let target = lower (get_or (highest_education (qa_background qa)) [])
            in first_option (\<lambda>opt. target \<noteq> [] \<and> contains target (lower opt)) options)
      else None)"

definition experience_pick :: "answerer \<Rightarrow> string \<Rightarrow> string list \<Rightarrow> string option" where
  "experience_pick qa q options =
     (if contains ''experience'' q
      then (let years = str_int (get_or (years_of_experience (qa_background qa)) 2)
            in first_option (\<lambda>opt. contains years opt) options)
      else None)"

definition country_pick :: "answerer \<Rightarrow> string \<Rightarrow> string list \<Rightarrow> string option" where
  "country_pick qa q options =
     (if contains ''country'' q
      then (let c = lower (get_or (country (qa_personal qa)) ''India'')
            in first_option (\<lambda>opt. contains c (lower opt)) options)
      else None)"

definition currency_pick :: "answerer \<Rightarrow> string \<Rightarrow> string list \<Rightarrow> string option" where
  "currency_pick qa q options =
     (if contains ''currency'' q
      then (let c = lower (get_or (currency (qa_background qa)) ''INR'')
            in first_option (\<lambda>opt. contains c (lower opt)) options)
      else None)"

definition best_dropdown_option :: "answerer \<Rightarrow> string \<Rightarrow> string list \<Rightarrow> string" where
  "best_dropdown_option qa question_text options =
     (case options of
        [] \<Rightarrow> []
      | opt0 # _ \<Rightarrow>
          (let q = lower question_text in
           if is_yes_no_question q
           then (let want = (if lookup_yes_no qa q then ''Yes'' else ''No'')
                 in get_or (first_option (\<lambda>opt. contains (lower want) (lower opt)) options) opt0)
           else (case education_pick qa q options of
                   Some opt \<Rightarrow> opt
                 | None \<Rightarrow>
               (case experience_pick qa q options of
                   Some opt \<Rightarrow> opt
                 | None \<Rightarrow>
               (case country_pick qa q options of
                   Some opt \<Rightarrow> opt
                 | None \<Rightarrow>
               (case currency_pick qa q options of
                   Some opt \<Rightarrow> opt
                 | None \<Rightarrow> opt0))))))"

text \<open>Rendering of a truth value by \<^verbatim>\<open>"Yes" if ... else "No"\<close>.\<close>

definition yes_or_no :: "bool \<Rightarrow> string" where
  "yes_or_no b = (if b then ''Yes'' else ''No'')"

text \<open>
  The specification's reading of a narrative rule, kept apart from \<open>star_rule_fires\<close>:
  every whitespace-delimited word of the key occurs as a whole word in the label.
\<close>

definition every_word_matches :: "string \<Rightarrow> string \<Rightarrow> bool" where
  "every_word_matches key q = list_all (\<lambda>word. re_search_word word q) (split key)"

section \<open>Form navigation\<close>

text \<open>
  The browser is an external collaborator. A surface state \<open>'s\<close> shows the buttons of
  the current document in document order and reacts to a click on the \<open>i\<close>-th of them;
  both are parameters, as is the effect \<open>fill\<close> of the field pass
  \<^verbatim>\<open>_fill_current_page\<close> on the surface. \<^verbatim>\<open>time.sleep\<close> and logging have no effect on
  the outcome and are left out.
\<close>

record button =
  btn_text :: string
  btn_displayed :: bool
  btn_enabled :: bool

record 's surface =
  buttons_of :: "'s \<Rightarrow> button list"
  click_button :: "nat \<Rightarrow> 's \<Rightarrow> 's"

text \<open>
  The run keeps, next to the surface, two observations of the execution: the clicks made
  so far (oldest first), each with the text that was searched for and the button that
  was clicked, and the number of loop iterations entered.
\<close>

record 's session =
  surf :: 's
  clicks :: "(string \<times> button) list"
  steps :: nat

fun find_first :: "('a \<Rightarrow> bool) \<Rightarrow> 'a list \<Rightarrow> nat option" where
  "find_first P [] = None"
| "find_first P (x # xs) = (if P x then Some 0 else map_option Suc (find_first P xs))"

text \<open>
  \<^verbatim>\<open>driver.find_element(By.XPATH, "//button[contains(., 'T')]")\<close>: the first button in
  document order whose text contains \<open>T\<close> (case-sensitively); \<open>None\<close> stands for
  \<^verbatim>\<open>NoSuchElementException\<close>.
\<close>

definition find_button :: "button list \<Rightarrow> string \<Rightarrow> nat option" where
  "find_button bs text = find_first (\<lambda>b. contains text (btn_text b)) bs"

definition press :: "'s surface \<Rightarrow> string \<Rightarrow> nat \<Rightarrow> 's session \<Rightarrow> 's session" where
  "press drv text i s =
     s\<lparr> surf := click_button drv i (surf s),
        clicks := clicks s @ [(text, buttons_of drv (surf s) ! i)] \<rparr>"

text \<open>The loop \<^verbatim>\<open>for text in (...)\<close> shared by \<^verbatim>\<open>_try_submit\<close> and \<^verbatim>\<open>_try_next\<close>.\<close>

fun try_texts :: "'s surface \<Rightarrow> string list \<Rightarrow> 's session \<Rightarrow> bool \<times> 's session" where
  "try_texts drv [] s = (False, s)"
| "try_texts drv (text # texts) s =
     (case find_button (buttons_of drv (surf s)) text of
        None \<Rightarrow> try_texts drv texts s
      | Some i \<Rightarrow>
          (let btn = buttons_of drv (surf s) ! i in
           if btn_displayed btn \<and> btn_enabled btn then (True, press drv text i s)
           else try_texts drv texts s))"

definition try_submit :: "'s surface \<Rightarrow> 's session \<Rightarrow> bool \<times> 's session" where
  "try_submit drv s = try_texts drv [''Submit application'', ''Submit''] s"

definition try_next :: "'s surface \<Rightarrow> 's session \<Rightarrow> bool \<times> 's session" where
  "try_next drv s = try_texts drv [''Next'', ''Continue'', ''Review''] s"

definition try_review :: "'s surface \<Rightarrow> 's session \<Rightarrow> bool \<times> 's session" where
  "try_review drv s =
     (case find_button (buttons_of drv (surf s)) ''Review'' of
        None \<Rightarrow> (False, s)
      | Some i \<Rightarrow>
          (let btn = buttons_of drv (surf s) ! i in
           if btn_displayed btn \<and> btn_enabled btn then (True, press drv ''Review'' i s)
           else (False, s)))"

definition max_steps :: nat where
  "max_steps = 15"

text \<open>
  The body of \<^verbatim>\<open>for step in range(max_steps)\<close>; the first argument counts the
  iterations that remain. Leaving the range and \<^verbatim>\<open>break\<close> both end in
  \<^verbatim>\<open>return False\<close>.
\<close>

fun application_loop ::
  "('s \<Rightarrow> 's) \<Rightarrow> 's surface \<Rightarrow> nat \<Rightarrow> 's session \<Rightarrow> bool \<times> 's session" where
  "application_loop fill drv 0 s = (False, s)"
| "application_loop fill drv (Suc remaining) s =
     (let s0 = s\<lparr> surf := fill (surf s), steps := Suc (steps s) \<rparr>;
          (submitted, s1) = try_submit drv s0
      in if submitted then (True, s1)
         else (let (advanced, s2) = try_next drv s1
               in if advanced then application_loop fill drv remaining s2
                  else (let (reviewed, s3) = try_review drv s2
                        in if reviewed then application_loop fill drv remaining s3
                           else (False, s3))))"

definition fill_application :: "('s \<Rightarrow> 's) \<Rightarrow> 's surface \<Rightarrow> 's \<Rightarrow> bool \<times> 's session" where
  "fill_application fill drv page =
     application_loop fill drv max_steps \<lparr> surf = page, clicks = [], steps = 0 \<rparr>"

text \<open>A control with the given text that is displayed and enabled is on the page.\<close>

definition clickable :: "button \<Rightarrow> bool" where
  "clickable b = (btn_displayed b \<and> btn_enabled b)"

definition has_clickable :: "string \<Rightarrow> button list \<Rightarrow> bool" where
  "has_clickable text bs = list_ex (\<lambda>b. contains text (btn_text b) \<and> clickable b) bs"

text \<open>The control a probe for \<open>text\<close> finds, if any.\<close>

definition probe_target :: "button list \<Rightarrow> string \<Rightarrow> button option" where
  "probe_target bs text = map_option (\<lambda>i. bs ! i) (find_button bs text)"

definition probe_hits :: "button list \<Rightarrow> string \<Rightarrow> bool" where
  "probe_hits bs text = (case probe_target bs text of None \<Rightarrow> False | Some b \<Rightarrow> clickable b)"

section \<open>Field filling\<close>

text \<open>
  What \<^verbatim>\<open>_get_label_for\<close> reads of an element: three attributes, and the text of the
  label found by each of the three structural probes (\<open>None\<close>: \<^verbatim>\<open>NoSuchElementException\<close>).
\<close>

record label_src =
  aria_label :: "string option"
  placeholder :: "string option"
  el_id :: "string option"
  label_for_id :: "string option"
  ancestor_label :: "string option"
  preceding_label :: "string option"

definition get_label_for :: "label_src \<Rightarrow> string" where
  "get_label_for e =
     (let aria = get_or (aria_label e) [] in
      if aria \<noteq> [] then aria
      else (let ph = get_or (placeholder e) [] in
      if ph \<noteq> [] then ph
      else (case (if get_or (el_id e) [] \<noteq> [] then label_for_id e else None) of
              Some t \<Rightarrow> strip t
            | None \<Rightarrow>
          (case ancestor_label e of
              Some t \<Rightarrow> strip t
            | None \<Rightarrow>
          (case preceding_label e of
              Some t \<Rightarrow> strip t
            | None \<Rightarrow> [])))))"

text \<open>
  A text input or a textarea. \<open>tf_value\<close> is \<^verbatim>\<open>get_attribute("value")\<close>. A stale element
  raises \<^verbatim>\<open>StaleElementReferenceException\<close> on its first access, and an element that is not
  interactable raises \<^verbatim>\<open>ElementNotInteractableException\<close> on \<^verbatim>\<open>clear\<close>; the source catches
  both and goes on to the next field.
\<close>

record text_field =
  tf_label :: label_src
  tf_stale :: bool
  tf_displayed :: bool
  tf_enabled :: bool
  tf_interactable :: bool
  tf_value :: "string option"

definition clear :: "text_field \<Rightarrow> text_field" where
  "clear f = f\<lparr> tf_value := Some [] \<rparr>"

definition send_keys :: "string \<Rightarrow> text_field \<Rightarrow> text_field" where
  "send_keys text f = f\<lparr> tf_value := Some (get_or (tf_value f) [] @ text) \<rparr>"

definition fill_text_input :: "answerer \<Rightarrow> text_field \<Rightarrow> text_field" where
  "fill_text_input qa inp =
     (if tf_stale inp then inp
      else if \<not> tf_displayed inp \<or> \<not> tf_enabled inp then inp
      else (let current_val = get_or (tf_value inp) [] in
            if strip current_val \<noteq> [] then inp
            else (let label_text = get_label_for (tf_label inp);
                      a = answer qa label_text ''text''
                  in if a \<noteq> []
                     then (if tf_interactable inp then send_keys a (clear inp) else inp)
                     else inp)))"

definition fill_text_inputs :: "answerer \<Rightarrow> text_field list \<Rightarrow> text_field list" where
  "fill_text_inputs qa inputs = map (fill_text_input qa) inputs"

definition fill_textarea :: "answerer \<Rightarrow> text_field \<Rightarrow> text_field" where
  "fill_textarea qa ta =
     (if tf_stale ta then ta
      else if \<not> tf_displayed ta \<or> \<not> tf_enabled ta then ta
      else if strip (get_or (tf_value ta) []) \<noteq> [] then ta
      else (let label_text = get_label_for (tf_label ta);
                a = answer qa label_text ''text''
            in if a \<noteq> []
               then (if tf_interactable ta then send_keys a (clear ta) else ta)
               else ta))"

definition fill_textareas :: "answerer \<Rightarrow> text_field list \<Rightarrow> text_field list" where
  "fill_textareas qa textareas = map (fill_textarea qa) textareas"

text \<open>
  A radio button. \<open>r_sibling\<close> is the text of the \<^verbatim>\<open>following-sibling::label\<close>, if there
  is one. A stale radio raises while it is being grouped and is left out of every group;
  a radio that is not interactable raises on \<^verbatim>\<open>click\<close> and the scan goes on.
\<close>

record radio =
  r_label :: label_src
  r_name :: "string option"
  r_stale :: bool
  r_selected :: bool
  r_sibling :: "string option"
  r_interactable :: bool

text \<open>\<^verbatim>\<open>groups.setdefault(name, []).append(radio)\<close> on an insertion-ordered dictionary.\<close>

fun dict_append :: "('k \<times> 'v list) list \<Rightarrow> 'k \<Rightarrow> 'v \<Rightarrow> ('k \<times> 'v list) list" where
  "dict_append [] k v = [(k, [v])]"
| "dict_append ((k', vs) # d) k v =
     (if k' = k then (k', vs @ [v]) # d else (k', vs) # dict_append d k v)"

definition group_radios :: "radio list \<Rightarrow> (string \<times> radio list) list" where
  "group_radios radios =
     foldl (\<lambda>groups r. if r_stale r then groups
                        else dict_append groups (get_or (r_name r) []) r) [] radios"

definition sib_label :: "radio \<Rightarrow> string" where
  "sib_label r = (case r_sibling r of None \<Rightarrow> [] | Some t \<Rightarrow> strip t)"

text \<open>The test \<^verbatim>\<open>answer.lower() in sib_label.lower() or sib_label.lower() in answer.lower()\<close>.\<close>

definition overlaps :: "string \<Rightarrow> radio \<Rightarrow> bool" where
  "overlaps a r =
     (contains (lower a) (lower (sib_label r)) \<or> contains (lower (sib_label r)) (lower a))"

text \<open>
  The inner loop over the members of one group: the first member that overlaps and
  accepts the click is selected and the loop ends; a member that refuses the click is
  passed over.
\<close>

fun click_matching :: "string \<Rightarrow> radio list \<Rightarrow> radio list" where
  "click_matching a [] = []"
| "click_matching a (r # rs) =
     (if overlaps a r
      then (if r_interactable r then r\<lparr> r_selected := True \<rparr> # rs
            else r # click_matching a rs)
      else r # click_matching a rs)"

text \<open>
  One iteration of \<^verbatim>\<open>for name, radio_list in groups.items()\<close>. A group is never empty
  (every key is created together with its first member), so the first case is not
  reached from \<open>fill_radios\<close>.
\<close>

definition fill_radio_group :: "answerer \<Rightarrow> radio list \<Rightarrow> radio list" where
  "fill_radio_group qa radio_list =
     (case radio_list of
        [] \<Rightarrow> []
      | first # _ \<Rightarrow>
          if list_ex r_selected radio_list then radio_list
          else (let label_text = get_label_for (r_label first);
                    a = answer qa label_text ''boolean''
                in click_matching a radio_list))"

definition fill_radios :: "answerer \<Rightarrow> radio list \<Rightarrow> (string \<times> radio list) list" where
  "fill_radios qa radios =
     map (\<lambda>(name, radio_list). (name, fill_radio_group qa radio_list)) (group_radios radios)"

section \<open>Concrete inputs\<close>

text \<open>
  A profile with one rule in each of the yes/no and numeric tables, no narrative rule
  and no personal facts.
\<close>

definition bare_config :: config where
  "bare_config =
     \<lparr> cfg_personal = \<lparr> first_name = None, last_name = None, email = None, phone = None,
                         city = None, country = None, linkedin_profile = None,
                         github_url = None, portfolio_url = None \<rparr>,
       cfg_background = \<lparr> years_of_experience = Some 3, highest_education = None,
                           notice_period_days = Some 30, expected_salary = Some 800000,
                           currency = None \<rparr>,
       cfg_eligibility = \<lparr> legally_authorized = Some True, require_sponsorship = Some False \<rparr>,
       cfg_answers = \<lparr> yes_no = [(''Willing to relocate'', True)],
                        numeric = [(''Team size'', 4)],
                        star_answers = [] \<rparr> \<rparr>"

text \<open>
  A wizard as the list of its pages, each page the list of its buttons: the current page
  is the first one, and any click moves on to the next page.
\<close>

definition wizard :: "button list list surface" where
  "wizard =
     \<lparr> buttons_of = (\<lambda>pages. case pages of [] \<Rightarrow> [] | page # _ \<Rightarrow> page),
       click_button = (\<lambda>i pages. tl pages) \<rparr>"

definition visible_button :: "string \<Rightarrow> button" where
  "visible_button text = \<lparr> btn_text = text, btn_displayed = True, btn_enabled = True \<rparr>"

definition hidden_button :: "string \<Rightarrow> button" where
  "hidden_button text = \<lparr> btn_text = text, btn_displayed = False, btn_enabled = True \<rparr>"

definition start :: "'s \<Rightarrow> 's session" where
  "start page = \<lparr> surf = page, clicks = [], steps = 0 \<rparr>"

text \<open>A surface that always shows one button, which no probe looks for.\<close>

definition dismiss_only :: "unit surface" where
  "dismiss_only =
     \<lparr> buttons_of = (\<lambda>_. [visible_button ''Dismiss'']),
       click_button = (\<lambda>i u. u) \<rparr>"

text \<open>
  A page on which a hidden "Submit application" button precedes a visible "Submit"
  button and a visible "Next" button.
\<close>

definition shadowed_submit_page :: "button list" where
  "shadowed_submit_page =
     [hidden_button ''Submit application'', visible_button ''Submit'', visible_button ''Next'']"

definition submit_and_next_page :: "button list" where
  "submit_and_next_page = [visible_button ''Next'', visible_button ''Submit application'']"

definition next_only_page :: "button list" where
  "next_only_page = [visible_button ''Next'']"

definition cancel_only_page :: "button list" where
  "cancel_only_page = [visible_button ''Cancel'']"

definition review_only_page :: "button list" where
  "review_only_page = [visible_button ''Review'']"

text \<open>
  The last character of \<open>xs\<close>, or \<open>prev\<close> (the character before \<open>xs\<close>) when it is
  empty.
\<close>

definition last_or :: "char option \<Rightarrow> string \<Rightarrow> char option" where
  "last_or prev xs = (if xs = [] then prev else Some (last xs))"

text \<open>A profile whose only narrative rule has the two-word key "team conflict".\<close>

definition conflict_config :: config where
  "conflict_config =
     bare_config\<lparr> cfg_answers :=
       \<lparr> yes_no = [], numeric = [],
         star_answers = [(''Team conflict'', '' I mediated between two colleagues. '')] \<rparr> \<rparr>"

definition art_config :: config where
  "art_config =
     bare_config\<lparr> cfg_answers :=
       \<lparr> yes_no = [], numeric = [],
         star_answers = [(''art'', ''I paint.''), (''Start date'', '' Next month. '')] \<rparr> \<rparr>"

text \<open>Two fields with the accessible name "First name": one pre-filled, one empty.\<close>

definition first_name_label :: label_src where
  "first_name_label =
     \<lparr> aria_label = Some ''First name'', placeholder = None, el_id = None,
       label_for_id = None, ancestor_label = None, preceding_label = None \<rparr>"

definition filled_field :: text_field where
  "filled_field =
     \<lparr> tf_label = first_name_label, tf_stale = False, tf_displayed = True,
       tf_enabled = True, tf_interactable = True, tf_value = Some ''Ada'' \<rparr>"

definition empty_field :: text_field where
  "empty_field = filled_field\<lparr> tf_value := None \<rparr>"

text \<open>The profile of the repository's tests, reduced to its personal facts.\<close>

definition john_config :: config where
  "john_config =
     bare_config\<lparr> cfg_personal :=
       \<lparr> first_name = Some ''John'', last_name = Some ''Doe'',
         email = Some ''john@example.com'', phone = None, city = Some ''Bangalore'',
         country = Some ''India'', linkedin_profile = None, github_url = None,
         portfolio_url = None \<rparr> \<rparr>"

text \<open>A yes/no question shown as radio buttons, and a group with no fitting answer.\<close>

definition relocate_label :: label_src where
  "relocate_label = first_name_label\<lparr> aria_label := Some ''Are you willing to relocate?'' \<rparr>"

definition no_radio :: radio where
  "no_radio =
     \<lparr> r_label = relocate_label, r_name = Some ''relocate'', r_stale = False,
       r_selected = False, r_sibling = Some ''No'', r_interactable = True \<rparr>"

definition yes_radio :: radio where
  "yes_radio = no_radio\<lparr> r_sibling := Some '' Yes '' \<rparr>"

definition maybe_radio :: radio where
  "maybe_radio = no_radio\<lparr> r_sibling := Some ''Maybe'' \<rparr>"

definition later_radio :: radio where
  "later_radio = no_radio\<lparr> r_sibling := Some ''Later'', r_selected := True \<rparr>"

section \<open>Rule tables\<close>

lemma first_rule_None_iff:
  "first_rule rules q = None \<longleftrightarrow> (\<forall>key \<in> set (map fst rules). \<not> contains key q)"
  by (induction rules) (auto split: if_splits)

lemma dict_set_map_fst:
  "map fst (dict_set d k v) = (if k \<in> set (map fst d) then map fst d else map fst d @ [k])"
  by (induction d) (fastforce simp: image_iff)+

lemma dict_set_keys: "set (map fst (dict_set d k v)) = insert k (set (map fst d))"
  by (simp add: dict_set_map_fst del: set_map) auto

lemma foldl_dict_set_keys:
  "set (map fst (foldl (\<lambda>d (k, v). dict_set d (lower k) v) d0 items))
     = set (map fst d0) \<union> lower ` set (map fst items)"
proof (induction items arbitrary: d0)
  case Nil
  then show ?case by simp
next
  case (Cons kv items)
  obtain k v where kv: "kv = (k, v)" by (cases kv)
  show ?case
    unfolding kv using Cons.IH [of "dict_set d0 (lower k) v"]
    by (simp add: dict_set_keys del: set_map)
qed

lemma lower_keys_keys: "set (map fst (lower_keys items)) = lower ` set (map fst items)"
  using foldl_dict_set_keys [of "[]" items] by (simp add: lower_keys_def del: set_map)

lemma no_rule_lookup:
  assumes "\<forall>key \<in> set (map fst items). \<not> contains (lower key) q"
  shows "first_rule (lower_keys items) q = None"
  using assms by (simp add: first_rule_None_iff lower_keys_keys del: set_map)

section \<open>Numeric questions\<close>

text \<open>
  C9. For a numeric question on which no configured numeric rule fires (no lower-cased
  rule keyword is a substring of the lower-cased, trimmed label \<open>q\<close>), the answer is the
  decimal rendering of: the years of experience when \<open>q\<close> contains "experience";
  otherwise the notice period when it contains "notice"; otherwise the expected salary
  when it contains "salary", "ctc" or "compensation"; otherwise 0. A fact that is absent
  from the profile is replaced by the default of the source (2, 0 and 600000). With
  three years of experience the label "How many years of experience do you have?" is
  answered "3".
\<close>

theorem numeric_answer_defaults:
  assumes qa: "qa = QuestionAnswerer cfg" and q: "q = strip (lower label)"
    and none: "\<forall>key \<in> set (map fst (numeric (cfg_answers cfg))). \<not> contains (lower key) q"
  shows "(contains ''experience'' q \<longrightarrow>
            answer qa label ''numeric''
              = str_int (get_or (years_of_experience (cfg_background cfg)) 2))
       \<and> (\<not> contains ''experience'' q \<and> contains ''notice'' q \<longrightarrow>
            answer qa label ''numeric''
              = str_int (get_or (notice_period_days (cfg_background cfg)) 0))
       \<and> (\<not> contains ''experience'' q \<and> \<not> contains ''notice'' q
            \<and> (contains ''salary'' q \<or> contains ''ctc'' q \<or> contains ''compensation'' q) \<longrightarrow>
            answer qa label ''numeric''
              = str_int (get_or (expected_salary (cfg_background cfg)) 600000))
       \<and> (\<not> contains ''experience'' q \<and> \<not> contains ''notice'' q
            \<and> \<not> (contains ''salary'' q \<or> contains ''ctc'' q \<or> contains ''compensation'' q) \<longrightarrow>
            answer qa label ''numeric'' = ''0'')
       \<and> (label = ''How many years of experience do you have?''
            \<and> years_of_experience (cfg_background cfg) = Some 3 \<longrightarrow>
            answer qa label ''numeric'' = ''3'')"
proof -
  have nr: "first_rule (numeric_map qa) q = None"
    using none by (simp add: qa QuestionAnswerer_def no_rule_lookup)
  have ans: "answer qa label ''numeric'' = str_int (lookup_numeric qa q)"
    by (simp add: answer_def q)
  have bg: "qa_background qa = cfg_background cfg"
    by (simp add: qa QuestionAnswerer_def)
  have zero: "str_int 0 = ''0''"
    by (simp add: str_int_def str_nat.simps)
  have three: "str_int 3 = ''3''"
    by (simp add: str_int_def str_nat.simps)
  have main: "answer qa label ''numeric'' =
      str_int (if contains ''experience'' q
               then get_or (years_of_experience (cfg_background cfg)) 2
               else if contains ''notice'' q
               then get_or (notice_period_days (cfg_background cfg)) 0
               else if contains ''salary'' q \<or> contains ''ctc'' q \<or> contains ''compensation'' q
               then get_or (expected_salary (cfg_background cfg)) 600000
               else 0)"
    using nr by (simp add: ans lookup_numeric_def bg)
  have ex: "contains ''experience'' q" if l: "label = ''How many years of experience do you have?''"
  proof -
    have "contains ''experience'' (strip (lower ''How many years of experience do you have?''))"
      by code_simp
    then show ?thesis by (simp only: q l)
  qed
  show ?thesis
    unfolding main using ex by (simp add: zero three get_or_def)
qed

theorem numeric_answer_defaults_witness:
  "answer (QuestionAnswerer bare_config) ''How many years of experience do you have?'' ''numeric'' = ''3''
   \<and> answer (QuestionAnswerer bare_config) ''Notice period (days)'' ''numeric'' = ''30''
   \<and> answer (QuestionAnswerer bare_config) ''Expected CTC'' ''numeric'' = ''800000''
   \<and> answer (QuestionAnswerer bare_config) ''Number of pets'' ''numeric'' = ''0''"
proof -
  have keys: "map fst (numeric (cfg_answers bare_config)) = [''Team size'']"
    by (simp add: bare_config_def)
  have bg: "years_of_experience (cfg_background bare_config) = Some 3"
      "notice_period_days (cfg_background bare_config) = Some 30"
      "expected_salary (cfg_background bare_config) = Some 800000"
    by (simp_all add: bare_config_def)
  have q1: "''how many years of experience do you have?''
              = strip (lower ''How many years of experience do you have?'')" by code_simp
  have q2: "''notice period (days)'' = strip (lower ''Notice period (days)'')" by code_simp
  have q3: "''expected ctc'' = strip (lower ''Expected CTC'')" by code_simp
  have q4: "''number of pets'' = strip (lower ''Number of pets'')" by code_simp
  have n1: "\<forall>key \<in> set (map fst (numeric (cfg_answers bare_config))).
              \<not> contains (lower key) ''how many years of experience do you have?''"
    unfolding keys by code_simp
  have n2: "\<forall>key \<in> set (map fst (numeric (cfg_answers bare_config))).
              \<not> contains (lower key) ''notice period (days)''"
    unfolding keys by code_simp
  have n3: "\<forall>key \<in> set (map fst (numeric (cfg_answers bare_config))).
              \<not> contains (lower key) ''expected ctc''"
    unfolding keys by code_simp
  have n4: "\<forall>key \<in> set (map fst (numeric (cfg_answers bare_config))).
              \<not> contains (lower key) ''number of pets''"
    unfolding keys by code_simp
  have c2: "\<not> contains ''experience'' ''notice period (days)''
            \<and> contains ''notice'' ''notice period (days)''" by code_simp
  have c3: "\<not> contains ''experience'' ''expected ctc''
            \<and> \<not> contains ''notice'' ''expected ctc''
            \<and> contains ''ctc'' ''expected ctc''" by code_simp
  have c4: "\<not> contains ''experience'' ''number of pets''
            \<and> \<not> contains ''notice'' ''number of pets''
            \<and> \<not> (contains ''salary'' ''number of pets'' \<or> contains ''ctc'' ''number of pets''
                 \<or> contains ''compensation'' ''number of pets'')" by code_simp
  have s: "str_int 30 = ''30''" "str_int 800000 = ''800000''"
    by (simp_all add: str_int_def str_nat.simps)
  have a1: "answer (QuestionAnswerer bare_config)
              ''How many years of experience do you have?'' ''numeric'' = ''3''"
    using numeric_answer_defaults [OF refl q1 n1] bg by blast
  have a2: "answer (QuestionAnswerer bare_config) ''Notice period (days)'' ''numeric'' = ''30''"
    using numeric_answer_defaults [OF refl q2 n2] c2 by (simp add: bg get_or_def s)
  have a3: "answer (QuestionAnswerer bare_config) ''Expected CTC'' ''numeric'' = ''800000''"
    using numeric_answer_defaults [OF refl q3 n3] c3 by (simp add: bg get_or_def s)
  have a4: "answer (QuestionAnswerer bare_config) ''Number of pets'' ''numeric'' = ''0''"
    using numeric_answer_defaults [OF refl q4 n4] c4 by blast
  show ?thesis using a1 a2 a3 a4 by blast
qed

section \<open>Boolean questions\<close>

text \<open>
  C6. A boolean question is answered with exactly "Yes" or "No". When no configured
  yes/no rule fires (no lower-cased rule keyword is a substring of the lower-cased,
  trimmed label \<open>q\<close>): a label containing "sponsorship" or "visa" is answered by the
  profile's sponsorship requirement (false when absent); otherwise a label containing
  "authorized" or "eligible" is answered by the profile's work authorisation (true when
  absent); every other label is answered "Yes". With the sponsorship requirement false
  and no rule firing, "Will you require sponsorship?" is answered "No".
\<close>

theorem boolean_answer_defaults:
  assumes qa: "qa = QuestionAnswerer cfg" and q: "q = strip (lower label)"
  shows "(answer qa label ''boolean'' = ''Yes'' \<or> answer qa label ''boolean'' = ''No'')
       \<and> ((\<forall>key \<in> set (map fst (yes_no (cfg_answers cfg))). \<not> contains (lower key) q) \<longrightarrow>
            (contains ''sponsorship'' q \<or> contains ''visa'' q \<longrightarrow>
               answer qa label ''boolean''
                 = yes_or_no (get_or (require_sponsorship (cfg_eligibility cfg)) False))
          \<and> (\<not> (contains ''sponsorship'' q \<or> contains ''visa'' q)
               \<and> (contains ''authorized'' q \<or> contains ''eligible'' q) \<longrightarrow>
               answer qa label ''boolean''
                 = yes_or_no (get_or (legally_authorized (cfg_eligibility cfg)) True))
          \<and> (\<not> (contains ''sponsorship'' q \<or> contains ''visa'' q)
               \<and> \<not> (contains ''authorized'' q \<or> contains ''eligible'' q) \<longrightarrow>
               answer qa label ''boolean'' = ''Yes'')
          \<and> (label = ''Will you require sponsorship?''
               \<and> require_sponsorship (cfg_eligibility cfg) = Some False \<longrightarrow>
               answer qa label ''boolean'' = ''No''))"
proof -
  have el: "qa_eligibility qa = cfg_eligibility cfg"
    by (simp add: qa QuestionAnswerer_def)
  have ans: "answer qa label ''boolean'' = yes_or_no (lookup_yes_no qa q)"
    by (simp add: answer_def q yes_or_no_def)
  have range: "answer qa label ''boolean'' = ''Yes'' \<or> answer qa label ''boolean'' = ''No''"
    by (simp add: ans yes_or_no_def)
  have sp: "contains ''sponsorship'' q" if l: "label = ''Will you require sponsorship?''"
  proof -
    have "contains ''sponsorship'' (strip (lower ''Will you require sponsorship?''))"
      by code_simp
    then show ?thesis by (simp only: q l)
  qed
  have rest: "(contains ''sponsorship'' q \<or> contains ''visa'' q \<longrightarrow>
               answer qa label ''boolean''
                 = yes_or_no (get_or (require_sponsorship (cfg_eligibility cfg)) False))
          \<and> (\<not> (contains ''sponsorship'' q \<or> contains ''visa'' q)
               \<and> (contains ''authorized'' q \<or> contains ''eligible'' q) \<longrightarrow>
               answer qa label ''boolean''
                 = yes_or_no (get_or (legally_authorized (cfg_eligibility cfg)) True))
          \<and> (\<not> (contains ''sponsorship'' q \<or> contains ''visa'' q)
               \<and> \<not> (contains ''authorized'' q \<or> contains ''eligible'' q) \<longrightarrow>
               answer qa label ''boolean'' = ''Yes'')
          \<and> (label = ''Will you require sponsorship?''
               \<and> require_sponsorship (cfg_eligibility cfg) = Some False \<longrightarrow>
               answer qa label ''boolean'' = ''No'')"
    if none: "\<forall>key \<in> set (map fst (yes_no (cfg_answers cfg))). \<not> contains (lower key) q"
  proof -
    have nr: "first_rule (yes_no_map qa) q = None"
      using none by (simp add: qa QuestionAnswerer_def no_rule_lookup)
    have main: "answer qa label ''boolean'' =
        yes_or_no (if contains ''sponsorship'' q \<or> contains ''visa'' q
                   then get_or (require_sponsorship (cfg_eligibility cfg)) False
                   else if contains ''authorized'' q \<or> contains ''eligible'' q
                   then get_or (legally_authorized (cfg_eligibility cfg)) True
                   else True)"
      using nr by (simp add: ans lookup_yes_no_def el)
    show ?thesis
      unfolding main using sp by (simp add: yes_or_no_def get_or_def)
  qed
  show ?thesis using range rest by blast
qed

theorem boolean_answer_defaults_witness:
  "answer (QuestionAnswerer bare_config) ''Will you require sponsorship?'' ''boolean'' = ''No''
   \<and> answer (QuestionAnswerer bare_config) ''Are you eligible to work here?'' ''boolean'' = ''Yes''
   \<and> answer (QuestionAnswerer bare_config) ''Do you own a car?'' ''boolean'' = ''Yes''"
proof -
  have keys: "map fst (yes_no (cfg_answers bare_config)) = [''Willing to relocate'']"
    by (simp add: bare_config_def)
  have el: "require_sponsorship (cfg_eligibility bare_config) = Some False"
      "legally_authorized (cfg_eligibility bare_config) = Some True"
    by (simp_all add: bare_config_def)
  have q1: "''will you require sponsorship?'' = strip (lower ''Will you require sponsorship?'')"
    by code_simp
  have q2: "''are you eligible to work here?'' = strip (lower ''Are you eligible to work here?'')"
    by code_simp
  have q3: "''do you own a car?'' = strip (lower ''Do you own a car?'')"
    by code_simp
  have n1: "\<forall>key \<in> set (map fst (yes_no (cfg_answers bare_config))).
              \<not> contains (lower key) ''will you require sponsorship?''"
    unfolding keys by code_simp
  have n2: "\<forall>key \<in> set (map fst (yes_no (cfg_answers bare_config))).
              \<not> contains (lower key) ''are you eligible to work here?''"
    unfolding keys by code_simp
  have n3: "\<forall>key \<in> set (map fst (yes_no (cfg_answers bare_config))).
              \<not> contains (lower key) ''do you own a car?''"
    unfolding keys by code_simp
  have c2: "\<not> (contains ''sponsorship'' ''are you eligible to work here?''
                \<or> contains ''visa'' ''are you eligible to work here?'')
            \<and> (contains ''authorized'' ''are you eligible to work here?''
                \<or> contains ''eligible'' ''are you eligible to work here?'')" by code_simp
  have c3: "\<not> (contains ''sponsorship'' ''do you own a car?''
                \<or> contains ''visa'' ''do you own a car?'')
            \<and> \<not> (contains ''authorized'' ''do you own a car?''
                \<or> contains ''eligible'' ''do you own a car?'')" by code_simp
  have a1: "answer (QuestionAnswerer bare_config) ''Will you require sponsorship?'' ''boolean''
              = ''No''"
    using boolean_answer_defaults [OF refl q1] n1 el by blast
  have a2: "answer (QuestionAnswerer bare_config) ''Are you eligible to work here?'' ''boolean''
              = ''Yes''"
    using boolean_answer_defaults [OF refl q2] n2 c2 by (simp add: el get_or_def yes_or_no_def)
  have a3: "answer (QuestionAnswerer bare_config) ''Do you own a car?'' ''boolean'' = ''Yes''"
    using boolean_answer_defaults [OF refl q3] n3 c3 by blast
  show ?thesis using a1 a2 a3 by blast
qed

section \<open>Choice lists\<close>

lemma first_option_member: "first_option cond options = Some opt \<Longrightarrow> opt \<in> set options"
  by (auto simp: first_option_def find_Some_iff)

lemma first_option_None:
  "first_option cond options = None \<longleftrightarrow> (\<forall>opt \<in> set options. \<not> cond opt)"
  by (auto simp: first_option_def find_None_iff)

lemma education_pick_member: "education_pick qa q options = Some opt \<Longrightarrow> opt \<in> set options"
  by (auto simp: education_pick_def Let_def split: if_splits dest: first_option_member)

lemma experience_pick_member: "experience_pick qa q options = Some opt \<Longrightarrow> opt \<in> set options"
  by (auto simp: experience_pick_def Let_def split: if_splits dest: first_option_member)

lemma country_pick_member: "country_pick qa q options = Some opt \<Longrightarrow> opt \<in> set options"
  by (auto simp: country_pick_def Let_def split: if_splits dest: first_option_member)

lemma currency_pick_member: "currency_pick qa q options = Some opt \<Longrightarrow> opt \<in> set options"
  by (auto simp: currency_pick_def Let_def split: if_splits dest: first_option_member)

lemma best_dropdown_option_in_options:
  assumes "options \<noteq> []"
  shows "best_dropdown_option qa label options \<in> set options"
proof -
  obtain opt0 rest where o: "options = opt0 # rest"
    using assms by (cases options) auto
  have yn: "get_or (first_option cond (opt0 # rest)) opt0 \<in> set (opt0 # rest)" for cond
  proof (cases "first_option cond (opt0 # rest)")
    case None
    then show ?thesis by (simp add: get_or_def)
  next
    case (Some opt)
    then show ?thesis
      using first_option_member [OF Some] by (simp add: get_or_def)
  qed
  have "best_dropdown_option qa label (opt0 # rest) \<in> set (opt0 # rest)"
  proof (cases "is_yes_no_question (lower label)")
    case True
    then show ?thesis
      using yn by (simp add: best_dropdown_option_def Let_def)
  next
    case False
    then show ?thesis
      using education_pick_member [of qa "lower label" "opt0 # rest"]
        experience_pick_member [of qa "lower label" "opt0 # rest"]
        country_pick_member [of qa "lower label" "opt0 # rest"]
        currency_pick_member [of qa "lower label" "opt0 # rest"]
      by (simp add: best_dropdown_option_def Let_def split: option.splits)
  qed
  then show ?thesis by (simp only: o)
qed

lemma best_dropdown_option_yes_no_fallback:
  assumes "options \<noteq> []" and "is_yes_no_question (lower label)"
    and "\<forall>opt \<in> set options.
           \<not> contains (lower (yes_or_no (lookup_yes_no qa (lower label)))) (lower opt)"
  shows "best_dropdown_option qa label options = hd options"
proof -
  obtain opt0 rest where o: "options = opt0 # rest"
    using assms(1) by (cases options) auto
  have "first_option (\<lambda>opt. contains (lower (yes_or_no (lookup_yes_no qa (lower label))))
                              (lower opt)) options = None"
    using assms(3) by (simp add: first_option_None)
  then show ?thesis
    using assms(2) by (simp add: best_dropdown_option_def o Let_def get_or_def yes_or_no_def)
qed

lemma best_dropdown_option_fallback:
  assumes "options \<noteq> []" and "\<not> is_yes_no_question (lower label)"
    and edu: "\<not> (contains ''education'' (lower label) \<or> contains ''degree'' (lower label))
              \<or> lower (get_or (highest_education (qa_background qa)) []) = []
              \<or> (\<forall>opt \<in> set options.
                    \<not> contains (lower (get_or (highest_education (qa_background qa)) []))
                                (lower opt))"
    and exp: "\<not> contains ''experience'' (lower label)
              \<or> (\<forall>opt \<in> set options.
                    \<not> contains (str_int (get_or (years_of_experience (qa_background qa)) 2)) opt)"
    and ctr: "\<not> contains ''country'' (lower label)
              \<or> (\<forall>opt \<in> set options.
                    \<not> contains (lower (get_or (country (qa_personal qa)) ''India'')) (lower opt))"
    and cur: "\<not> contains ''currency'' (lower label)
              \<or> (\<forall>opt \<in> set options.
                    \<not> contains (lower (get_or (currency (qa_background qa)) ''INR'')) (lower opt))"
  shows "best_dropdown_option qa label options = hd options"
proof -
  obtain opt0 rest where o: "options = opt0 # rest"
    using assms(1) by (cases options) auto
  have e1: "education_pick qa (lower label) options = None"
    using edu by (auto simp: education_pick_def Let_def first_option_None)
  have e2: "experience_pick qa (lower label) options = None"
    using exp by (auto simp: experience_pick_def Let_def first_option_None)
  have e3: "country_pick qa (lower label) options = None"
    using ctr by (auto simp: country_pick_def Let_def first_option_None)
  have e4: "currency_pick qa (lower label) options = None"
    using cur by (auto simp: currency_pick_def Let_def first_option_None)
  have "best_dropdown_option qa label (opt0 # rest) = opt0"
    using assms(2) e1 e2 e3 e4
    by (simp add: best_dropdown_option_def Let_def o)
  then show ?thesis by (simp add: o)
qed

lemma unknown_question_plain:
  "\<not> is_yes_no_question (lower ''Unknown question'')
   \<and> \<not> contains ''education'' (lower ''Unknown question'')
   \<and> \<not> contains ''degree'' (lower ''Unknown question'')
   \<and> \<not> contains ''experience'' (lower ''Unknown question'')
   \<and> \<not> contains ''country'' (lower ''Unknown question'')
   \<and> \<not> contains ''currency'' (lower ''Unknown question'')"
  by code_simp

text \<open>
  C3. On a non-empty list of options \<open>best_dropdown_option\<close> returns one of the options.
  It returns the first option when the label is a yes/no question and no option contains
  the wanted "yes"/"no", and when the label is not a yes/no question and each of the four
  selection rules (education, experience, country, currency) either does not fire or
  finds no option containing its target. The label "Unknown question" with the options
  "Option A", "Option B" yields "Option A" for every profile.
\<close>

theorem best_dropdown_option_total:
  assumes "options \<noteq> []"
  shows "best_dropdown_option qa label options \<in> set options
       \<and> (is_yes_no_question (lower label)
            \<and> (\<forall>opt \<in> set options.
                  \<not> contains (lower (yes_or_no (lookup_yes_no qa (lower label)))) (lower opt)) \<longrightarrow>
            best_dropdown_option qa label options = hd options)
       \<and> (\<not> is_yes_no_question (lower label)
            \<and> (\<not> (contains ''education'' (lower label) \<or> contains ''degree'' (lower label))
                \<or> lower (get_or (highest_education (qa_background qa)) []) = []
                \<or> (\<forall>opt \<in> set options.
                      \<not> contains (lower (get_or (highest_education (qa_background qa)) []))
                                  (lower opt)))
            \<and> (\<not> contains ''experience'' (lower label)
                \<or> (\<forall>opt \<in> set options.
                      \<not> contains (str_int (get_or (years_of_experience (qa_background qa)) 2))
                                  opt))
            \<and> (\<not> contains ''country'' (lower label)
                \<or> (\<forall>opt \<in> set options.
                      \<not> contains (lower (get_or (country (qa_personal qa)) ''India''))
                                  (lower opt)))
            \<and> (\<not> contains ''currency'' (lower label)
                \<or> (\<forall>opt \<in> set options.
                      \<not> contains (lower (get_or (currency (qa_background qa)) ''INR''))
                                  (lower opt))) \<longrightarrow>
            best_dropdown_option qa label options = hd options)
       \<and> best_dropdown_option qa ''Unknown question'' [''Option A'', ''Option B''] = ''Option A''"
proof (intro conjI impI)
  show "best_dropdown_option qa label options \<in> set options"
    using assms by (rule best_dropdown_option_in_options)
next
  assume "is_yes_no_question (lower label)
            \<and> (\<forall>opt \<in> set options.
                  \<not> contains (lower (yes_or_no (lookup_yes_no qa (lower label)))) (lower opt))"
  then show "best_dropdown_option qa label options = hd options"
    using assms best_dropdown_option_yes_no_fallback by blast
next
  assume a: "\<not> is_yes_no_question (lower label)
            \<and> (\<not> (contains ''education'' (lower label) \<or> contains ''degree'' (lower label))
                \<or> lower (get_or (highest_education (qa_background qa)) []) = []
                \<or> (\<forall>opt \<in> set options.
                      \<not> contains (lower (get_or (highest_education (qa_background qa)) []))
                                  (lower opt)))
            \<and> (\<not> contains ''experience'' (lower label)
                \<or> (\<forall>opt \<in> set options.
                      \<not> contains (str_int (get_or (years_of_experience (qa_background qa)) 2))
                                  opt))
            \<and> (\<not> contains ''country'' (lower label)
                \<or> (\<forall>opt \<in> set options.
                      \<not> contains (lower (get_or (country (qa_personal qa)) ''India''))
                                  (lower opt)))
            \<and> (\<not> contains ''currency'' (lower label)
                \<or> (\<forall>opt \<in> set options.
                      \<not> contains (lower (get_or (currency (qa_background qa)) ''INR''))
                                  (lower opt)))"
  show "best_dropdown_option qa label options = hd options"
    by (rule best_dropdown_option_fallback [OF assms]) (use a in blast)+
next
  have "best_dropdown_option qa ''Unknown question'' [''Option A'', ''Option B'']
          = hd [''Option A'', ''Option B'']"
    by (rule best_dropdown_option_fallback) (use unknown_question_plain in simp_all)
  then show "best_dropdown_option qa ''Unknown question'' [''Option A'', ''Option B'']
               = ''Option A''"
    by simp
qed

theorem best_dropdown_option_total_witness:
  "best_dropdown_option (QuestionAnswerer bare_config) ''Preferred currency''
       [''USD'', ''EUR'', ''INR'', ''GBP''] \<in> set [''USD'', ''EUR'', ''INR'', ''GBP'']
   \<and> best_dropdown_option (QuestionAnswerer bare_config) ''Are you willing to relocate?''
       [''Maybe'', ''Later''] = ''Maybe''
   \<and> best_dropdown_option (QuestionAnswerer bare_config) ''Country of residence''
       [''France'', ''Spain''] = ''France''"
proof -
  let ?qa = "QuestionAnswerer bare_config"
  have ne: "[''USD'', ''EUR'', ''INR'', ''GBP''] \<noteq> []" "[''Maybe'', ''Later''] \<noteq> []"
      "[''France'', ''Spain''] \<noteq> []"
    by simp_all
  have h2: "is_yes_no_question (lower ''Are you willing to relocate?'')
      \<and> (\<forall>opt \<in> set [''Maybe'', ''Later''].
            \<not> contains (lower (yes_or_no (lookup_yes_no ?qa (lower ''Are you willing to relocate?''))))
                        (lower opt))"
    by code_simp
  have h3: "\<not> is_yes_no_question (lower ''Country of residence'')
      \<and> (\<not> (contains ''education'' (lower ''Country of residence'')
             \<or> contains ''degree'' (lower ''Country of residence''))
          \<or> lower (get_or (highest_education (qa_background ?qa)) []) = []
          \<or> (\<forall>opt \<in> set [''France'', ''Spain''].
                \<not> contains (lower (get_or (highest_education (qa_background ?qa)) []))
                            (lower opt)))
      \<and> (\<not> contains ''experience'' (lower ''Country of residence'')
          \<or> (\<forall>opt \<in> set [''France'', ''Spain''].
                \<not> contains (str_int (get_or (years_of_experience (qa_background ?qa)) 2)) opt))
      \<and> (\<not> contains ''country'' (lower ''Country of residence'')
          \<or> (\<forall>opt \<in> set [''France'', ''Spain''].
                \<not> contains (lower (get_or (country (qa_personal ?qa)) ''India'')) (lower opt)))
      \<and> (\<not> contains ''currency'' (lower ''Country of residence'')
          \<or> (\<forall>opt \<in> set [''France'', ''Spain''].
                \<not> contains (lower (get_or (currency (qa_background ?qa)) ''INR''))
                            (lower opt)))"
    by code_simp
  have a1: "best_dropdown_option ?qa ''Preferred currency'' [''USD'', ''EUR'', ''INR'', ''GBP'']
              \<in> set [''USD'', ''EUR'', ''INR'', ''GBP'']"
    using best_dropdown_option_total [OF ne(1), of ?qa "''Preferred currency''"] by blast
  have a2: "best_dropdown_option ?qa ''Are you willing to relocate?'' [''Maybe'', ''Later'']
              = hd [''Maybe'', ''Later'']"
    using best_dropdown_option_total [OF ne(2), of ?qa "''Are you willing to relocate?''"] h2
    by blast
  have a3: "best_dropdown_option ?qa ''Country of residence'' [''France'', ''Spain'']
              = hd [''France'', ''Spain'']"
    using best_dropdown_option_total [OF ne(3), of ?qa "''Country of residence''"] h3
    by blast
  show ?thesis using a1 a2 a3 by simp
qed

section \<open>Navigation probes\<close>

lemma press_steps [simp]: "steps (press drv text i s) = steps s"
  by (simp add: press_def)

lemma press_clicks:
  "clicks (press drv text i s) = clicks s @ [(text, buttons_of drv (surf s) ! i)]"
  by (simp add: press_def)

lemma find_first_Some:
  "find_first P xs = Some i \<Longrightarrow> i < length xs \<and> P (xs ! i) \<and> (\<forall>j < i. \<not> P (xs ! j))"
proof (induction xs arbitrary: i)
  case Nil
  then show ?case by simp
next
  case (Cons x xs)
  show ?case
  proof (cases "P x")
    case True
    with Cons.prems show ?thesis by simp
  next
    case False
    with Cons.prems obtain k where k: "find_first P xs = Some k" "i = Suc k"
      by auto
    from Cons.IH [OF k(1)] False show ?thesis
      by (auto simp: k(2) less_Suc_eq_0_disj)
  qed
qed

lemma find_first_None: "find_first P xs = None \<longleftrightarrow> (\<forall>x \<in> set xs. \<not> P x)"
  by (induction xs) auto

text \<open>A probe sequence succeeds exactly when one of its texts finds a clickable control.\<close>

lemma try_texts_hits:
  "fst (try_texts drv texts s)
     \<longleftrightarrow> (\<exists>text \<in> set texts. probe_hits (buttons_of drv (surf s)) text)"
  by (induction texts)
     (auto simp: probe_hits_def probe_target_def clickable_def Let_def split: option.splits)

lemma try_texts_miss: "\<not> fst (try_texts drv texts s) \<Longrightarrow> try_texts drv texts s = (False, s)"
  by (induction texts) (auto simp: Let_def split: option.splits if_splits)

lemma try_texts_click:
  assumes "fst (try_texts drv texts s)"
  shows "\<exists>text i. text \<in> set texts
           \<and> find_button (buttons_of drv (surf s)) text = Some i
           \<and> clickable (buttons_of drv (surf s) ! i)
           \<and> try_texts drv texts s = (True, press drv text i s)"
  using assms
proof (induction texts)
  case Nil
  then show ?case by simp
next
  case (Cons t texts)
  show ?case
  proof (cases "probe_hits (buttons_of drv (surf s)) t")
    case True
    then obtain i where "find_button (buttons_of drv (surf s)) t = Some i"
        "clickable (buttons_of drv (surf s) ! i)"
      by (auto simp: probe_hits_def probe_target_def split: option.splits)
    then have "t \<in> set (t # texts)
           \<and> find_button (buttons_of drv (surf s)) t = Some i
           \<and> clickable (buttons_of drv (surf s) ! i)
           \<and> try_texts drv (t # texts) s = (True, press drv t i s)"
      by (simp add: clickable_def Let_def)
    then show ?thesis by blast
  next
    case False
    then have eq: "try_texts drv (t # texts) s = try_texts drv texts s"
      by (auto simp: probe_hits_def probe_target_def clickable_def Let_def split: option.splits)
    with Cons.prems have "fst (try_texts drv texts s)" by simp
    from Cons.IH [OF this] eq show ?thesis by auto
  qed
qed

lemma try_texts_steps [simp]: "steps (snd (try_texts drv texts s)) = steps s"
  by (induction texts) (auto simp: Let_def split: option.splits)

lemma try_review_as_texts: "try_review drv s = try_texts drv [''Review''] s"
  by (simp add: try_review_def Let_def split: option.splits)

lemma try_submit_steps: "try_submit drv s = (ok, s') \<Longrightarrow> steps s' = steps s"
  unfolding try_submit_def using try_texts_steps [of drv _ s] by (metis snd_conv)

lemma try_next_steps: "try_next drv s = (ok, s') \<Longrightarrow> steps s' = steps s"
  unfolding try_next_def using try_texts_steps [of drv _ s] by (metis snd_conv)

lemma try_review_steps: "try_review drv s = (ok, s') \<Longrightarrow> steps s' = steps s"
  unfolding try_review_as_texts using try_texts_steps [of drv _ s] by (metis snd_conv)

text \<open>
  Inside the loop the dedicated review probe runs only after the advance probe has
  failed on the same surface state; since the advance probe has already searched for
  "Review" there, the review probe then fails as well.
\<close>

lemma review_after_failed_next:
  assumes "\<not> fst (try_next drv s)"
  shows "try_review drv s = (False, s)"
proof -
  from assms have "\<not> probe_hits (buttons_of drv (surf s)) ''Review''"
    unfolding try_next_def try_texts_hits by simp
  then have "\<not> fst (try_texts drv [''Review''] s)"
    unfolding try_texts_hits by simp
  then show ?thesis
    unfolding try_review_as_texts by (rule try_texts_miss)
qed

lemma application_loop_steps:
  "steps (snd (application_loop fill drv n s)) \<le> steps s + n"
proof (induction n arbitrary: s)
  case 0
  then show ?case by simp
next
  case (Suc n)
  let ?s0 = "s\<lparr> surf := fill (surf s), steps := Suc (steps s) \<rparr>"
  obtain ok1 s1 where r1: "try_submit drv ?s0 = (ok1, s1)" by (cases "try_submit drv ?s0")
  obtain ok2 s2 where r2: "try_next drv s1 = (ok2, s2)" by (cases "try_next drv s1")
  obtain ok3 s3 where r3: "try_review drv s2 = (ok3, s3)" by (cases "try_review drv s2")
  have st: "steps s1 = Suc (steps s)" "steps s2 = Suc (steps s)" "steps s3 = Suc (steps s)"
    using try_submit_steps [OF r1] try_next_steps [OF r2] try_review_steps [OF r3] by simp_all
  have eq: "application_loop fill drv (Suc n) s =
      (if ok1 then (True, s1)
       else if ok2 then application_loop fill drv n s2
       else if ok3 then application_loop fill drv n s3
       else (False, s3))"
    by (simp add: Let_def r1 r2 r3)
  show ?case
    unfolding eq using Suc.IH [of s2] Suc.IH [of s3] st by auto
qed

section \<open>The driving loop\<close>

lemma application_loop_unfold:
  assumes "try_submit drv (s\<lparr> surf := fill (surf s), steps := Suc (steps s) \<rparr>) = (ok1, s1)"
    and "try_next drv s1 = (ok2, s2)"
    and "try_review drv s2 = (ok3, s3)"
  shows "application_loop fill drv (Suc n) s =
      (if ok1 then (True, s1)
       else if ok2 then application_loop fill drv n s2
       else if ok3 then application_loop fill drv n s3
       else (False, s3))"
  using assms by (simp add: Let_def)

lemma stuck_step:
  assumes "\<not> fst (try_submit drv (s\<lparr> surf := fill (surf s), steps := Suc (steps s) \<rparr>))"
    and "\<not> fst (try_next drv (s\<lparr> surf := fill (surf s), steps := Suc (steps s) \<rparr>))"
  shows "application_loop fill drv (Suc n) s
           = (False, s\<lparr> surf := fill (surf s), steps := Suc (steps s) \<rparr>)"
proof -
  let ?t = "s\<lparr> surf := fill (surf s), steps := Suc (steps s) \<rparr>"
  have r1: "try_submit drv ?t = (False, ?t)"
    using assms(1) unfolding try_submit_def by (rule try_texts_miss)
  have r2: "try_next drv ?t = (False, ?t)"
    using assms(2) unfolding try_next_def by (rule try_texts_miss)
  have r3: "try_review drv ?t = (False, ?t)"
    using assms(2) by (rule review_after_failed_next)
  show ?thesis
    by (simp add: Let_def r1 r2 r3)
qed

text \<open>
  C4. \<open>fill_application\<close> is a total function: it returns on every surface, after at most
  \<open>max_steps = 15\<close> iterations of its loop. On a surface where the submit, advance and
  review probes fail in every state, it returns failure; it does so in its first
  iteration and without a click.
\<close>

theorem fill_application_bounded:
  "max_steps = 15
   \<and> steps (snd (fill_application fill drv page)) \<le> max_steps
   \<and> ((\<forall>s. \<not> fst (try_submit drv s) \<and> \<not> fst (try_next drv s) \<and> \<not> fst (try_review drv s)) \<longrightarrow>
        fst (fill_application fill drv page) = False
        \<and> steps (snd (fill_application fill drv page)) = 1
        \<and> clicks (snd (fill_application fill drv page)) = [])"
proof (intro conjI impI)
  show "max_steps = 15" by (simp add: max_steps_def)
next
  show "steps (snd (fill_application fill drv page)) \<le> max_steps"
    using application_loop_steps [of fill drv max_steps "\<lparr> surf = page, clicks = [], steps = 0 \<rparr>"]
    by (simp add: fill_application_def)
next
  assume fail: "\<forall>s. \<not> fst (try_submit drv s) \<and> \<not> fst (try_next drv s) \<and> \<not> fst (try_review drv s)"
  let ?s = "\<lparr> surf = page, clicks = [], steps = 0 \<rparr>"
  let ?t = "?s\<lparr> surf := fill (surf ?s), steps := Suc (steps ?s) \<rparr>"
  have "application_loop fill drv (Suc 14) ?s = (False, ?t)"
    by (rule stuck_step) (use fail in blast)+
  then have r: "fill_application fill drv page = (False, ?t)"
    by (simp add: fill_application_def max_steps_def)
  show "fst (fill_application fill drv page) = False" by (simp add: r)
  show "steps (snd (fill_application fill drv page)) = 1" by (simp add: r)
  show "clicks (snd (fill_application fill drv page)) = []" by (simp add: r)
qed

lemma dismiss_only_never_hits:
  "\<not> fst (try_submit dismiss_only s) \<and> \<not> fst (try_next dismiss_only s)
   \<and> \<not> fst (try_review dismiss_only s)"
  by (simp add: try_submit_def try_next_def try_review_def dismiss_only_def find_button_def
      visible_button_def)

theorem fill_application_bounded_witness:
  "(\<forall>s. \<not> fst (try_submit dismiss_only s) \<and> \<not> fst (try_next dismiss_only s)
        \<and> \<not> fst (try_review dismiss_only s))
   \<and> fst (fill_application id dismiss_only ()) = False
   \<and> steps (snd (fill_application id dismiss_only ())) = 1"
  using fill_application_bounded [of id dismiss_only "()"] dismiss_only_never_hits
  by blast

section \<open>Priority of the probes\<close>

lemma submit_hit_step:
  assumes "fst (try_submit drv (s\<lparr> surf := fill (surf s), steps := Suc (steps s) \<rparr>))"
  shows "\<exists>t i. t \<in> {''Submit application'', ''Submit''}
           \<and> find_button (buttons_of drv (fill (surf s))) t = Some i
           \<and> clickable (buttons_of drv (fill (surf s)) ! i)
           \<and> application_loop fill drv (Suc n) s
               = (True, press drv t i (s\<lparr> surf := fill (surf s), steps := Suc (steps s) \<rparr>))"
proof -
  let ?t = "s\<lparr> surf := fill (surf s), steps := Suc (steps s) \<rparr>"
  from assms have "fst (try_texts drv [''Submit application'', ''Submit''] ?t)"
    by (simp only: try_submit_def)
  from try_texts_click [OF this] obtain t i where
    ti: "t \<in> set [''Submit application'', ''Submit'']"
      "find_button (buttons_of drv (surf ?t)) t = Some i"
      "clickable (buttons_of drv (surf ?t) ! i)"
      "try_texts drv [''Submit application'', ''Submit''] ?t = (True, press drv t i ?t)"
    by blast
  have r: "try_submit drv ?t = (True, press drv t i ?t)"
    using ti(4) by (simp only: try_submit_def)
  have "application_loop fill drv (Suc n) s = (True, press drv t i ?t)"
    by (simp add: Let_def r)
  then show ?thesis
    using ti(1-3) by auto
qed

lemma advance_hit_step:
  assumes "\<not> fst (try_submit drv (s\<lparr> surf := fill (surf s), steps := Suc (steps s) \<rparr>))"
    and "fst (try_next drv (s\<lparr> surf := fill (surf s), steps := Suc (steps s) \<rparr>))"
  shows "\<exists>t i. t \<in> {''Next'', ''Continue'', ''Review''}
           \<and> find_button (buttons_of drv (fill (surf s))) t = Some i
           \<and> clickable (buttons_of drv (fill (surf s)) ! i)
           \<and> application_loop fill drv (Suc n) s
               = application_loop fill drv n
                   (press drv t i (s\<lparr> surf := fill (surf s), steps := Suc (steps s) \<rparr>))"
proof -
  let ?t = "s\<lparr> surf := fill (surf s), steps := Suc (steps s) \<rparr>"
  have r1: "try_submit drv ?t = (False, ?t)"
    using assms(1) unfolding try_submit_def by (rule try_texts_miss)
  from assms(2) have "fst (try_texts drv [''Next'', ''Continue'', ''Review''] ?t)"
    by (simp only: try_next_def)
  from try_texts_click [OF this] obtain t i where
    ti: "t \<in> set [''Next'', ''Continue'', ''Review'']"
      "find_button (buttons_of drv (surf ?t)) t = Some i"
      "clickable (buttons_of drv (surf ?t) ! i)"
      "try_texts drv [''Next'', ''Continue'', ''Review''] ?t = (True, press drv t i ?t)"
    by blast
  have r2: "try_next drv ?t = (True, press drv t i ?t)"
    using ti(4) by (simp only: try_next_def)
  have "application_loop fill drv (Suc n) s = application_loop fill drv n (press drv t i ?t)"
    by (simp add: Let_def r1 r2)
  then show ?thesis
    using ti(1-3) by auto
qed

lemma try_submit_hits:
  "fst (try_submit drv s)
     \<longleftrightarrow> probe_hits (buttons_of drv (surf s)) ''Submit application''
         \<or> probe_hits (buttons_of drv (surf s)) ''Submit''"
  unfolding try_submit_def try_texts_hits by simp

lemma try_next_hits:
  "fst (try_next drv s)
     \<longleftrightarrow> probe_hits (buttons_of drv (surf s)) ''Next''
         \<or> probe_hits (buttons_of drv (surf s)) ''Continue''
         \<or> probe_hits (buttons_of drv (surf s)) ''Review''"
  unfolding try_next_def try_texts_hits by simp

text \<open>
  C5, as the claim states it, fails: on a page where a hidden "Submit application"
  button precedes a visible "Submit" button and a visible "Next" button, a submit control
  and an advance control are both present and clickable, yet the submit probe misses (both
  of its searches stop at the hidden button) and the advance control is clicked.
\<close>

theorem submit_priority_counterexample:
  "has_clickable ''Submit'' shadowed_submit_page
   \<and> has_clickable ''Next'' shadowed_submit_page
   \<and> fill_application id wizard [shadowed_submit_page]
       = (False, \<lparr> surf = [], clicks = [(''Next'', visible_button ''Next'')], steps = 2 \<rparr>)"
  by code_simp

text \<open>
  C5, amended. In every iteration the probes run in the order submit, advance, review,
  and each search looks only at the first button in document order whose text contains
  the searched text. With \<open>bs\<close> the buttons shown after the field pass:
  if the first button containing "Submit application", or else the first button
  containing "Submit", is displayed and enabled, the iteration clicks that button and
  nothing else and the run ends with success, whatever advance controls are present;
  otherwise, if the search for "Next", "Continue" or "Review" finds a displayed and
  enabled button, that button is the only click of the iteration and the loop goes on;
  otherwise the run ends with failure without a click.
\<close>

theorem submit_priority:
  assumes t: "t = s\<lparr> surf := fill (surf s), steps := Suc (steps s) \<rparr>"
    and bs: "bs = buttons_of drv (fill (surf s))"
  shows "(probe_hits bs ''Submit application'' \<or> probe_hits bs ''Submit'' \<longrightarrow>
            (\<exists>lbl i. lbl \<in> {''Submit application'', ''Submit''}
               \<and> find_button bs lbl = Some i \<and> clickable (bs ! i)
               \<and> application_loop fill drv (Suc n) s = (True, press drv lbl i t)
               \<and> clicks (press drv lbl i t) = clicks s @ [(lbl, bs ! i)]))
       \<and> (\<not> (probe_hits bs ''Submit application'' \<or> probe_hits bs ''Submit'')
            \<and> (probe_hits bs ''Next'' \<or> probe_hits bs ''Continue'' \<or> probe_hits bs ''Review'') \<longrightarrow>
            (\<exists>lbl i. lbl \<in> {''Next'', ''Continue'', ''Review''}
               \<and> find_button bs lbl = Some i \<and> clickable (bs ! i)
               \<and> application_loop fill drv (Suc n) s
                   = application_loop fill drv n (press drv lbl i t)
               \<and> clicks (press drv lbl i t) = clicks s @ [(lbl, bs ! i)]))
       \<and> (\<not> (probe_hits bs ''Submit application'' \<or> probe_hits bs ''Submit'')
            \<and> \<not> (probe_hits bs ''Next'' \<or> probe_hits bs ''Continue'' \<or> probe_hits bs ''Review'') \<longrightarrow>
            application_loop fill drv (Suc n) s = (False, t))"
proof -
  have surf_t: "buttons_of drv (surf t) = bs" and clicks_t: "clicks t = clicks s"
    by (simp_all add: t bs)
  have pc: "clicks (press drv lbl i t) = clicks s @ [(lbl, bs ! i)]" for lbl i
    by (simp add: press_clicks surf_t clicks_t)
  have sub: "fst (try_submit drv t)
               \<longleftrightarrow> probe_hits bs ''Submit application'' \<or> probe_hits bs ''Submit''"
    by (simp only: try_submit_hits surf_t)
  have nxt: "fst (try_next drv t)
               \<longleftrightarrow> probe_hits bs ''Next'' \<or> probe_hits bs ''Continue'' \<or> probe_hits bs ''Review''"
    by (simp only: try_next_hits surf_t)
  have A: "\<exists>lbl i. lbl \<in> {''Submit application'', ''Submit''}
               \<and> find_button bs lbl = Some i \<and> clickable (bs ! i)
               \<and> application_loop fill drv (Suc n) s = (True, press drv lbl i t)
               \<and> clicks (press drv lbl i t) = clicks s @ [(lbl, bs ! i)]"
    if "probe_hits bs ''Submit application'' \<or> probe_hits bs ''Submit''"
  proof -
    from that have "fst (try_submit drv t)" by (simp only: sub)
    from submit_hit_step [of drv s fill n, OF this [unfolded t]] show ?thesis
      unfolding t [symmetric] bs [symmetric] using pc by blast
  qed
  have B: "\<exists>lbl i. lbl \<in> {''Next'', ''Continue'', ''Review''}
               \<and> find_button bs lbl = Some i \<and> clickable (bs ! i)
               \<and> application_loop fill drv (Suc n) s
                   = application_loop fill drv n (press drv lbl i t)
               \<and> clicks (press drv lbl i t) = clicks s @ [(lbl, bs ! i)]"
    if "\<not> (probe_hits bs ''Submit application'' \<or> probe_hits bs ''Submit'')"
      and "probe_hits bs ''Next'' \<or> probe_hits bs ''Continue'' \<or> probe_hits bs ''Review''"
  proof -
    from that have h: "\<not> fst (try_submit drv t)" "fst (try_next drv t)"
      by (simp_all only: sub nxt simp_thms)
    from advance_hit_step [of drv s fill n, OF h [unfolded t]] show ?thesis
      unfolding t [symmetric] bs [symmetric] using pc by blast
  qed
  have C: "application_loop fill drv (Suc n) s = (False, t)"
    if "\<not> (probe_hits bs ''Submit application'' \<or> probe_hits bs ''Submit'')"
      and "\<not> (probe_hits bs ''Next'' \<or> probe_hits bs ''Continue'' \<or> probe_hits bs ''Review'')"
  proof -
    from that have h: "\<not> fst (try_submit drv t)" "\<not> fst (try_next drv t)"
      by (simp_all only: sub nxt simp_thms)
    from stuck_step [of drv s fill n, OF h [unfolded t]] show ?thesis
      by (simp only: t)
  qed
  show ?thesis using A B C by blast
qed

theorem submit_priority_witness:
  "has_clickable ''Next'' submit_and_next_page
   \<and> probe_hits submit_and_next_page ''Submit application''
   \<and> fst (application_loop id wizard (Suc 14) (start [submit_and_next_page]))
   \<and> map snd (clicks (snd (application_loop id wizard (Suc 14) (start [submit_and_next_page]))))
       = [visible_button ''Submit application'']
   \<and> application_loop id wizard (Suc 14) (start [cancel_only_page])
       = (False, \<lparr> surf = [cancel_only_page], clicks = [], steps = 1 \<rparr>)
   \<and> (\<exists>lbl i. lbl \<in> {''Next'', ''Continue'', ''Review''}
          \<and> find_button next_only_page lbl = Some i
          \<and> application_loop id wizard (Suc 14) (start [next_only_page])
              = application_loop id wizard 14
                  (press wizard lbl i \<lparr> surf = [next_only_page], clicks = [], steps = 1 \<rparr>))"
proof -
  have t: "\<lparr> surf = [p], clicks = [], steps = 1 \<rparr>
             = (start [p])\<lparr> surf := id (surf (start [p])), steps := Suc (steps (start [p])) \<rparr>"
    for p :: "button list"
    by (simp add: start_def)
  have bs: "p = buttons_of wizard (id (surf (start [p])))" for p :: "button list"
    by (simp add: start_def wizard_def)
  have nx: "has_clickable ''Next'' submit_and_next_page" by code_simp
  have h1: "probe_hits submit_and_next_page ''Submit application''" by code_simp
  have f: "find_button submit_and_next_page ''Submit application'' = Some 1"
      "find_button submit_and_next_page ''Submit'' = Some 1"
      "submit_and_next_page ! 1 = visible_button ''Submit application''"
    by code_simp+
  from submit_priority [of _ "start [submit_and_next_page]" id submit_and_next_page wizard 14, OF t bs] h1
  obtain lbl i where li: "lbl \<in> {''Submit application'', ''Submit''}"
      "find_button submit_and_next_page lbl = Some i"
      "application_loop id wizard (Suc 14) (start [submit_and_next_page])
         = (True, press wizard lbl i \<lparr> surf = [submit_and_next_page], clicks = [], steps = 1 \<rparr>)"
      "clicks (press wizard lbl i \<lparr> surf = [submit_and_next_page], clicks = [], steps = 1 \<rparr>)
         = clicks (start [submit_and_next_page]) @ [(lbl, submit_and_next_page ! i)]"
    by blast
  from li(1,2) f(1,2) have "i = 1" by auto
  then have a1: "fst (application_loop id wizard (Suc 14) (start [submit_and_next_page]))
      \<and> map snd (clicks (snd (application_loop id wizard (Suc 14) (start [submit_and_next_page]))))
          = [visible_button ''Submit application'']"
    using li(3,4) f(3) by (simp add: start_def)
  have h3: "\<not> (probe_hits cancel_only_page ''Submit application''
                \<or> probe_hits cancel_only_page ''Submit'')
            \<and> \<not> (probe_hits cancel_only_page ''Next'' \<or> probe_hits cancel_only_page ''Continue''
                \<or> probe_hits cancel_only_page ''Review'')"
    by code_simp
  have a3: "application_loop id wizard (Suc 14) (start [cancel_only_page])
       = (False, \<lparr> surf = [cancel_only_page], clicks = [], steps = 1 \<rparr>)"
    using submit_priority [of _ "start [cancel_only_page]" id cancel_only_page wizard 14, OF t bs] h3 by blast
  have h2: "\<not> (probe_hits next_only_page ''Submit application''
                \<or> probe_hits next_only_page ''Submit'')
            \<and> (probe_hits next_only_page ''Next'' \<or> probe_hits next_only_page ''Continue''
                \<or> probe_hits next_only_page ''Review'')"
    by code_simp
  have a2: "\<exists>lbl i. lbl \<in> {''Next'', ''Continue'', ''Review''}
          \<and> find_button next_only_page lbl = Some i
          \<and> application_loop id wizard (Suc 14) (start [next_only_page])
              = application_loop id wizard 14
                  (press wizard lbl i \<lparr> surf = [next_only_page], clicks = [], steps = 1 \<rparr>)"
    using submit_priority [of _ "start [next_only_page]" id next_only_page wizard 14, OF t bs] h2 by blast
  show ?thesis using nx h1 a1 a2 a3 by blast
qed

text \<open>
  C2. The claim asks that the advance probe never match a button whose text is only
  "Review". The advance probe of the source searches for "Next", "Continue" and
  "Review": on a page whose only button is a visible, enabled "Review" button it
  succeeds and clicks that button, and in a run the click is made by the advance probe,
  not by the review probe.
\<close>

theorem advance_probe_clicks_review:
  "try_next wizard (start [review_only_page])
     = (True, \<lparr> surf = [], clicks = [(''Review'', visible_button ''Review'')], steps = 0 \<rparr>)
   \<and> fst (try_texts wizard [''Next'', ''Continue''] (start [review_only_page])) = False
   \<and> fill_application id wizard [review_only_page]
       = (False, \<lparr> surf = [], clicks = [(''Review'', visible_button ''Review'')], steps = 2 \<rparr>)"
  by code_simp

section \<open>Narrative rules\<close>

lemma startswith_iff: "startswith s w \<longleftrightarrow> (\<exists>post. s = w @ post)"
  by (induction s w rule: startswith.induct) auto

lemma match_here_iff:
  "match_here prev w s
     \<longleftrightarrow> (\<exists>post. s = w @ post
            \<and> boundary prev (head_opt (w @ post))
            \<and> boundary (last_or prev w) (head_opt post))"
  by (auto simp: match_here_def startswith_iff last_or_def)

text \<open>
  The search finds \<open>w\<close> exactly when the subject splits as \<open>pre @ w @ post\<close> with a word
  boundary on each side of \<open>w\<close>.
\<close>

lemma search_from_iff:
  "search_from prev w s
     \<longleftrightarrow> (\<exists>pre post. s = pre @ w @ post
            \<and> boundary (last_or prev pre) (head_opt (w @ post))
            \<and> boundary (last_or prev (pre @ w)) (head_opt post))"
proof (induction s arbitrary: prev)
  case Nil
  show ?case
    by (auto simp: match_here_iff last_or_def)
next
  case (Cons c cs)
  have here: "match_here prev w (c # cs)
     \<longleftrightarrow> (\<exists>post. c # cs = [] @ w @ post
            \<and> boundary (last_or prev []) (head_opt (w @ post))
            \<and> boundary (last_or prev ([] @ w)) (head_opt post))"
    by (simp add: match_here_iff last_or_def)
  have later: "search_from (Some c) w cs
     \<longleftrightarrow> (\<exists>pre post. c # cs = (c # pre) @ w @ post
            \<and> boundary (last_or prev (c # pre)) (head_opt (w @ post))
            \<and> boundary (last_or prev ((c # pre) @ w)) (head_opt post))"
    unfolding Cons.IH by (simp add: last_or_def)
  show ?case
  proof
    assume "search_from prev w (c # cs)"
    then consider "match_here prev w (c # cs)" | "search_from (Some c) w cs" by auto
    then show "\<exists>pre post. c # cs = pre @ w @ post
            \<and> boundary (last_or prev pre) (head_opt (w @ post))
            \<and> boundary (last_or prev (pre @ w)) (head_opt post)"
    proof cases
      case 1
      then show ?thesis unfolding here by blast
    next
      case 2
      then show ?thesis unfolding later by blast
    qed
  next
    assume "\<exists>pre post. c # cs = pre @ w @ post
            \<and> boundary (last_or prev pre) (head_opt (w @ post))
            \<and> boundary (last_or prev (pre @ w)) (head_opt post)"
    then obtain pre post where p: "c # cs = pre @ w @ post"
        "boundary (last_or prev pre) (head_opt (w @ post))"
        "boundary (last_or prev (pre @ w)) (head_opt post)"
      by blast
    show "search_from prev w (c # cs)"
    proof (cases pre)
      case Nil
      with p have "match_here prev w (c # cs)" unfolding here by auto
      then show ?thesis by simp
    next
      case (Cons d pre')
      with p have "d = c" by simp
      with p Cons have "search_from (Some c) w cs" unfolding later by blast
      then show ?thesis by simp
    qed
  qed
qed

lemma re_search_word_iff:
  "re_search_word w q
     \<longleftrightarrow> (\<exists>pre post. q = pre @ w @ post
            \<and> boundary (last_or None pre) (head_opt (w @ post))
            \<and> boundary (last_or None (pre @ w)) (head_opt post))"
  by (simp add: re_search_word_def search_from_iff)

lemma first_star_None:
  "first_star rules q = None
     \<longleftrightarrow> (\<forall>i < length rules. \<not> star_rule_fires (fst (rules ! i)) q)"
proof (induction rules)
  case Nil
  then show ?case by simp
next
  case (Cons r rules)
  obtain key body where r: "r = (key, body)" by (cases r)
  show ?case
    unfolding r using Cons.IH by (auto simp: nth_Cons split: nat.splits)
qed

lemma first_star_first:
  assumes "i < length rules" and "star_rule_fires (fst (rules ! i)) q"
    and "\<forall>j < i. \<not> star_rule_fires (fst (rules ! j)) q"
  shows "first_star rules q = Some (strip (snd (rules ! i)))"
  using assms
proof (induction rules arbitrary: i)
  case Nil
  then show ?case by simp
next
  case (Cons r rules)
  obtain key body where r: "r = (key, body)" by (cases r)
  show ?case
  proof (cases i)
    case 0
    with Cons.prems show ?thesis by (simp add: r)
  next
    case (Suc k)
    from Cons.prems(3) Suc have nf: "\<not> star_rule_fires key q"
      by (auto simp: r dest: spec [of _ 0])
    have "\<forall>j < k. \<not> star_rule_fires (fst (rules ! j)) q"
      using Cons.prems(3) Suc by (metis Suc_less_eq nth_Cons_Suc)
    with Cons.IH [of k] Cons.prems(1,2) Suc
    have "first_star rules q = Some (strip (snd (rules ! k)))" by simp
    then show ?thesis by (simp add: r nf Suc)
  qed
qed

text \<open>
  C1, as the claim states it, fails: with the single narrative rule keyed "team conflict"
  the label "Describe your team" is answered with the rule's text, although the word
  "conflict" does not occur in the label.
\<close>

theorem narrative_every_word_counterexample:
  "star_map (QuestionAnswerer conflict_config)
     = [(''team conflict'', '' I mediated between two colleagues. '')]
   \<and> answer (QuestionAnswerer conflict_config) ''Describe your team'' ''text''
       = ''I mediated between two colleagues.''
   \<and> \<not> every_word_matches ''team conflict'' (strip (lower ''Describe your team''))
   \<and> \<not> re_search_word ''conflict'' (strip (lower ''Describe your team''))"
  by code_simp

text \<open>
  C1, amended. Let \<open>q\<close> be the lower-cased, trimmed label of a free-text question and
  \<open>rules\<close> the narrative table in its order. A rule fires when at least one
  whitespace-delimited word of its key occurs in \<open>q\<close> as a whole word, that is, \<open>q\<close>
  splits around the word with a word boundary on each side. The first rule that fires
  wins and its text is returned trimmed; when no rule fires, the answer comes from the
  fixed list of field categories. A rule keyed "art" does not fire on the label "Please
  describe your start date".
\<close>

theorem narrative_rule_matching:
  assumes q: "q = strip (lower label)" and rules: "rules = star_map qa"
  shows "(\<forall>i < length rules.
            star_rule_fires (fst (rules ! i)) q
            \<and> (\<forall>j < i. \<not> star_rule_fires (fst (rules ! j)) q) \<longrightarrow>
            answer qa label ''text'' = strip (snd (rules ! i)))
       \<and> ((\<forall>i < length rules. \<not> star_rule_fires (fst (rules ! i)) q) \<longrightarrow>
            answer qa label ''text'' = common_field_answer qa q)
       \<and> (star_rule_fires key q \<longleftrightarrow>
            (\<exists>word \<in> set (split key). \<exists>pre post.
               q = pre @ word @ post
               \<and> boundary (last_or None pre) (head_opt (word @ post))
               \<and> boundary (last_or None (pre @ word)) (head_opt post)))
       \<and> \<not> star_rule_fires ''art'' (strip (lower ''Please describe your start date''))"
proof -
  have ans: "answer qa label ''text'' = free_text_answer qa q"
    by (simp add: answer_def q)
  have hit: "answer qa label ''text'' = strip (snd (rules ! i))"
    if "i < length rules" "star_rule_fires (fst (rules ! i)) q"
      "\<forall>j < i. \<not> star_rule_fires (fst (rules ! j)) q" for i
    using first_star_first [OF that] by (simp add: ans free_text_answer_def rules)
  have miss: "answer qa label ''text'' = common_field_answer qa q"
    if "\<forall>i < length rules. \<not> star_rule_fires (fst (rules ! i)) q"
    using that by (simp add: ans free_text_answer_def rules [symmetric] first_star_None [symmetric])
  have fires: "star_rule_fires key q \<longleftrightarrow>
            (\<exists>word \<in> set (split key). \<exists>pre post.
               q = pre @ word @ post
               \<and> boundary (last_or None pre) (head_opt (word @ post))
               \<and> boundary (last_or None (pre @ word)) (head_opt post))"
    by (simp add: star_rule_fires_def list_ex_iff re_search_word_iff)
  have art: "\<not> star_rule_fires ''art'' (strip (lower ''Please describe your start date''))"
    by code_simp
  show ?thesis using hit miss fires art by blast
qed

theorem narrative_rule_matching_witness:
  "answer (QuestionAnswerer art_config) ''Please describe your start date'' ''text''
     = ''Next month.''
   \<and> answer (QuestionAnswerer bare_config) ''Hobbies'' ''text'' = generic_text"
proof -
  have r1: "[(''art'', ''I paint.''), (''start date'', '' Next month. '')]
              = star_map (QuestionAnswerer art_config)"
    by code_simp
  have q1: "''please describe your start date'' = strip (lower ''Please describe your start date'')"
    by code_simp
  have f1: "\<not> star_rule_fires ''art'' ''please describe your start date''"
      "star_rule_fires ''start date'' ''please describe your start date''"
      "strip '' Next month. '' = ''Next month.''"
    by code_simp+
  have a1: "answer (QuestionAnswerer art_config) ''Please describe your start date'' ''text''
              = ''Next month.''"
  proof -
    have "(1::nat) < length [(''art'', ''I paint.''), (''start date'', '' Next month. '')]
        \<and> star_rule_fires
             (fst ([(''art'', ''I paint.''), (''start date'', '' Next month. '')] ! 1))
             ''please describe your start date''
        \<and> (\<forall>j < 1. \<not> star_rule_fires
             (fst ([(''art'', ''I paint.''), (''start date'', '' Next month. '')] ! j))
             ''please describe your start date'')"
      using f1 by simp
    then have "answer (QuestionAnswerer art_config) ''Please describe your start date'' ''text''
        = strip (snd ([(''art'', ''I paint.''), (''start date'', '' Next month. '')] ! 1))"
      using narrative_rule_matching [OF q1 r1] by blast
    then show ?thesis using f1(3) by simp
  qed
  have r2: "[] = star_map (QuestionAnswerer bare_config)"
    by code_simp
  have q2: "''hobbies'' = strip (lower ''Hobbies'')"
    by code_simp
  have g: "common_field_answer (QuestionAnswerer bare_config) ''hobbies'' = generic_text"
    by code_simp
  have a2: "answer (QuestionAnswerer bare_config) ''Hobbies'' ''text'' = generic_text"
    using narrative_rule_matching [OF q2 r2] g by simp
  show ?thesis using a1 a2 by blast
qed

section \<open>Text fields\<close>

lemma fill_text_input_filled:
  "strip (get_or (tf_value f) []) \<noteq> [] \<Longrightarrow> fill_text_input qa f = f"
  by (simp add: fill_text_input_def Let_def)

lemma fill_textarea_filled:
  "strip (get_or (tf_value f) []) \<noteq> [] \<Longrightarrow> fill_textarea qa f = f"
  by (simp add: fill_textarea_def Let_def)

lemma fill_text_input_textarea: "fill_textarea qa f = fill_text_input qa f"
  by (simp add: fill_textarea_def fill_text_input_def Let_def)

text \<open>The pass is idempotent on every field, filled or not.\<close>

lemma fill_text_input_idem:
  "fill_text_input qa (fill_text_input qa f) = fill_text_input qa f"
proof (cases "fill_text_input qa f = f")
  case True
  then show ?thesis by simp
next
  case False
  let ?a = "answer qa (get_label_for (tf_label f)) ''text''"
  from False have c: "\<not> tf_stale f" "tf_displayed f" "tf_enabled f" "tf_interactable f"
      "?a \<noteq> []" "strip (get_or (tf_value f) []) = []"
    by (auto simp: fill_text_input_def Let_def split: if_splits)
  then have w: "fill_text_input qa f = f\<lparr> tf_value := Some ?a \<rparr>"
    by (simp add: fill_text_input_def Let_def send_keys_def clear_def get_or_def)
  show ?thesis
    unfolding w using c
    by (simp add: fill_text_input_def Let_def send_keys_def clear_def get_or_def)
qed

text \<open>
  C7. A text input or textarea whose current value is non-empty after trimming is
  returned unchanged by the fill pass, whatever its label and whatever the profile, so
  a second pass leaves it unchanged as well; in a list of fields this holds for each
  such field at its position.
\<close>

theorem text_fill_idempotent:
  assumes "strip (get_or (tf_value f) []) \<noteq> []"
  shows "fill_text_input qa f = f
       \<and> fill_textarea qa f = f
       \<and> fill_text_input qa (fill_text_input qa f) = f
       \<and> fill_textarea qa (fill_textarea qa f) = f
       \<and> fill_text_input qa' (f\<lparr> tf_label := l \<rparr>) = f\<lparr> tf_label := l \<rparr>
       \<and> fill_textarea qa' (f\<lparr> tf_label := l \<rparr>) = f\<lparr> tf_label := l \<rparr>
       \<and> (i < length fs \<and> fs ! i = f \<longrightarrow>
            fill_text_inputs qa fs ! i = f
            \<and> fill_text_inputs qa (fill_text_inputs qa fs) ! i = f
            \<and> fill_textareas qa fs ! i = f
            \<and> fill_textareas qa (fill_textareas qa fs) ! i = f)"
proof -
  have a: "fill_text_input qa f = f" "fill_textarea qa f = f"
    using assms by (simp_all add: fill_text_input_filled fill_textarea_filled)
  have l: "strip (get_or (tf_value (f\<lparr> tf_label := l \<rparr>)) []) \<noteq> []"
    using assms by simp
  have b: "fill_text_input qa' (f\<lparr> tf_label := l \<rparr>) = f\<lparr> tf_label := l \<rparr>"
      "fill_textarea qa' (f\<lparr> tf_label := l \<rparr>) = f\<lparr> tf_label := l \<rparr>"
    using l by (rule fill_text_input_filled, rule fill_textarea_filled)
  have c: "fill_text_inputs qa fs ! i = f
            \<and> fill_text_inputs qa (fill_text_inputs qa fs) ! i = f
            \<and> fill_textareas qa fs ! i = f
            \<and> fill_textareas qa (fill_textareas qa fs) ! i = f"
    if "i < length fs" "fs ! i = f"
    using that a by (simp add: fill_text_inputs_def fill_textareas_def)
  show ?thesis using a b c by simp
qed

theorem text_fill_idempotent_witness:
  "strip (get_or (tf_value filled_field) []) \<noteq> []
   \<and> fill_text_input (QuestionAnswerer john_config) filled_field = filled_field
   \<and> fill_text_inputs (QuestionAnswerer john_config)
        (fill_text_inputs (QuestionAnswerer john_config) [empty_field, filled_field]) ! 1
       = filled_field
   \<and> tf_value (fill_text_input (QuestionAnswerer john_config) empty_field) = Some ''John''"
proof -
  have h: "strip (get_or (tf_value filled_field) []) \<noteq> []"
    by code_simp
  have i: "1 < length [empty_field, filled_field] \<and> [empty_field, filled_field] ! 1 = filled_field"
    by simp
  have e: "tf_value (fill_text_input (QuestionAnswerer john_config) empty_field) = Some ''John''"
    by code_simp
  show ?thesis
    using text_fill_idempotent [OF h, of "QuestionAnswerer john_config" _ _ 1
        "[empty_field, filled_field]"] h i e
    by blast
qed

section \<open>Empty answers\<close>

text \<open>
  C10. The answer to a free-text question can be the empty string. When no narrative rule
  fires on the lower-cased, trimmed label \<open>q\<close>, the first category of the fixed list
  that \<open>q\<close> mentions decides the answer; if that category is the first name, the last
  name, the e-mail address, the phone number, the LinkedIn profile, the repository URL or
  the portfolio URL and the profile has no such fact, the answer is empty and not the
  generic paragraph. A text input or textarea whose label is answered with the empty
  string is left as it was by the fill pass.
\<close>

theorem empty_free_text_answer:
  assumes q: "q = strip (lower label)"
    and none: "\<forall>i < length (star_map qa). \<not> star_rule_fires (fst (star_map qa ! i)) q"
  shows "((contains ''first name'' q)
            \<and> first_name (qa_personal qa) = None \<longrightarrow>
            answer qa label ''text'' = [])
       \<and> (\<not> (contains ''first name'' q)
            \<and> (contains ''last name'' q \<or> contains ''surname'' q)
            \<and> last_name (qa_personal qa) = None \<longrightarrow>
            answer qa label ''text'' = [])
       \<and> (\<not> (contains ''first name'' q)
            \<and> \<not> (contains ''last name'' q \<or> contains ''surname'' q)
            \<and> (contains ''email'' q)
            \<and> email (qa_personal qa) = None \<longrightarrow>
            answer qa label ''text'' = [])
       \<and> (\<not> (contains ''first name'' q)
            \<and> \<not> (contains ''last name'' q \<or> contains ''surname'' q)
            \<and> \<not> (contains ''email'' q)
            \<and> (contains ''phone'' q \<or> contains ''mobile'' q)
            \<and> phone (qa_personal qa) = None \<longrightarrow>
            answer qa label ''text'' = [])
       \<and> (\<not> (contains ''first name'' q)
            \<and> \<not> (contains ''last name'' q \<or> contains ''surname'' q)
            \<and> \<not> (contains ''email'' q)
            \<and> \<not> (contains ''phone'' q \<or> contains ''mobile'' q)
            \<and> \<not> (contains ''city'' q)
            \<and> (contains ''linkedin'' q)
            \<and> linkedin_profile (qa_personal qa) = None \<longrightarrow>
            answer qa label ''text'' = [])
       \<and> (\<not> (contains ''first name'' q)
            \<and> \<not> (contains ''last name'' q \<or> contains ''surname'' q)
            \<and> \<not> (contains ''email'' q)
            \<and> \<not> (contains ''phone'' q \<or> contains ''mobile'' q)
            \<and> \<not> (contains ''city'' q)
            \<and> \<not> (contains ''linkedin'' q)
            \<and> (contains ''github'' q)
            \<and> github_url (qa_personal qa) = None \<longrightarrow>
            answer qa label ''text'' = [])
       \<and> (\<not> (contains ''first name'' q)
            \<and> \<not> (contains ''last name'' q \<or> contains ''surname'' q)
            \<and> \<not> (contains ''email'' q)
            \<and> \<not> (contains ''phone'' q \<or> contains ''mobile'' q)
            \<and> \<not> (contains ''city'' q)
            \<and> \<not> (contains ''linkedin'' q)
            \<and> \<not> (contains ''github'' q)
            \<and> (contains ''portfolio'' q \<or> contains ''website'' q)
            \<and> portfolio_url (qa_personal qa) = None \<longrightarrow>
            answer qa label ''text'' = [])
       \<and> (get_label_for (tf_label f) = label \<and> answer qa label ''text'' = [] \<longrightarrow>
            fill_text_input qa f = f \<and> fill_textarea qa f = f)"
proof -
  have ns: "first_star (star_map qa) q = None"
    using none by (simp add: first_star_None)
  have ans: "answer qa label ''text'' = common_field_answer qa q"
    by (simp add: answer_def Let_def q [symmetric] free_text_answer_def ns)
  have skip: "fill_text_input qa f = f \<and> fill_textarea qa f = f"
    if "get_label_for (tf_label f) = label" "answer qa label ''text'' = []"
    using that by (simp add: fill_text_input_def fill_textarea_def Let_def)
  show ?thesis
    unfolding ans using skip [unfolded ans]
    by (simp add: common_field_answer_def get_or_def)
qed

theorem empty_free_text_answer_witness:
  "answer (QuestionAnswerer bare_config) ''First name'' ''text'' = []
   \<and> answer (QuestionAnswerer bare_config) ''Email address'' ''text'' = []
   \<and> answer (QuestionAnswerer bare_config) ''LinkedIn profile'' ''text'' = []
   \<and> get_label_for (tf_label empty_field) = ''First name''
   \<and> fill_text_input (QuestionAnswerer bare_config) empty_field = empty_field
   \<and> fill_textarea (QuestionAnswerer bare_config) empty_field = empty_field
   \<and> tf_value empty_field = None"
proof -
  let ?qa = "QuestionAnswerer bare_config"
  have sm: "star_map ?qa = []" by code_simp
  have none: "\<forall>i < length (star_map ?qa). \<not> star_rule_fires (fst (star_map ?qa ! i)) q" for q
    by (simp add: sm)
  have facts: "first_name (qa_personal ?qa) = None" "email (qa_personal ?qa) = None"
      "linkedin_profile (qa_personal ?qa) = None"
    by (simp_all add: QuestionAnswerer_def bare_config_def)
  have q1: "''first name'' = strip (lower ''First name'')" by code_simp
  have c1: "contains ''first name'' ''first name''"
    by code_simp
  have a1: "answer ?qa ''First name'' ''text'' = []"
    using empty_free_text_answer [OF q1 none, of empty_field] c1 facts by simp
  have q2: "''email address'' = strip (lower ''Email address'')" by code_simp
  have c2: "\<not> (contains ''first name'' ''email address'')
      \<and> \<not> (contains ''last name'' ''email address'' \<or> contains ''surname'' ''email address'')
      \<and> (contains ''email'' ''email address'')"
    by code_simp
  have a2: "answer ?qa ''Email address'' ''text'' = []"
    using empty_free_text_answer [OF q2 none, of empty_field] c2 facts by simp
  have q3: "''linkedin profile'' = strip (lower ''LinkedIn profile'')" by code_simp
  have c3: "\<not> (contains ''first name'' ''linkedin profile'')
      \<and> \<not> (contains ''last name'' ''linkedin profile'' \<or> contains ''surname'' ''linkedin profile'')
      \<and> \<not> (contains ''email'' ''linkedin profile'')
      \<and> \<not> (contains ''phone'' ''linkedin profile'' \<or> contains ''mobile'' ''linkedin profile'')
      \<and> \<not> (contains ''city'' ''linkedin profile'')
      \<and> (contains ''linkedin'' ''linkedin profile'')"
    by code_simp
  have a3: "answer ?qa ''LinkedIn profile'' ''text'' = []"
    using empty_free_text_answer [OF q3 none, of empty_field] c3 facts by simp
  have lbl: "get_label_for (tf_label empty_field) = ''First name''" by code_simp
  have v: "tf_value empty_field = None" by code_simp
  have f: "fill_text_input ?qa empty_field = empty_field \<and> fill_textarea ?qa empty_field = empty_field"
    using empty_free_text_answer [OF q1 none, of empty_field] lbl a1 by simp
  show ?thesis using a1 a2 a3 lbl f v by simp
qed

section \<open>Radio groups\<close>

text \<open>
  The scan of one group selects the first member that overlaps the answer and accepts
  the click, and changes nothing else.
\<close>

lemma click_matching_first:
  "click_matching a rs =
     (case find_first (\<lambda>r. overlaps a r \<and> r_interactable r) rs of
        None \<Rightarrow> rs
      | Some i \<Rightarrow> rs[i := (rs ! i)\<lparr> r_selected := True \<rparr>])"
proof (induction rs)
  case Nil
  then show ?case by simp
next
  case (Cons r rs)
  show ?case
  proof (cases "overlaps a r \<and> r_interactable r")
    case True
    then show ?thesis by simp
  next
    case False
    then have "click_matching a (r # rs) = r # click_matching a rs" by auto
    with Cons.IH False show ?thesis
      by (cases "find_first (\<lambda>r. overlaps a r \<and> r_interactable r) rs") auto
  qed
qed

lemma dict_append_nonempty:
  "\<forall>(k, vs) \<in> set d. vs \<noteq> [] \<Longrightarrow> \<forall>(k, vs) \<in> set (dict_append d key v). vs \<noteq> []"
  by (induction d) (auto split: if_splits)

lemma foldl_groups_nonempty:
  "\<forall>(k, vs) \<in> set d. vs \<noteq> [] \<Longrightarrow>
   \<forall>(k, vs) \<in> set (foldl (\<lambda>groups r. if r_stale r then groups
                                    else dict_append groups (get_or (r_name r) []) r) d radios).
     vs \<noteq> []"
proof (induction radios arbitrary: d)
  case Nil
  then show ?case by simp
next
  case (Cons r radios)
  show ?case
  proof (cases "r_stale r")
    case True
    with Cons show ?thesis by simp
  next
    case False
    have "\<forall>(k, vs) \<in> set (dict_append d (get_or (r_name r) []) r). vs \<noteq> []"
      using Cons.prems by (rule dict_append_nonempty)
    from Cons.IH [OF this] False show ?thesis by simp
  qed
qed

text \<open>Every group that the grouping produces has a first member.\<close>

lemma group_radios_nonempty: "(name, radio_list) \<in> set (group_radios radios) \<Longrightarrow> radio_list \<noteq> []"
  using foldl_groups_nonempty [of "[]" radios] by (auto simp: group_radios_def)

text \<open>
  C8. For a radio group \<open>g\<close> with first member \<open>first\<close>: if a member is already selected
  the group is returned unchanged. Otherwise the wanted answer \<open>a\<close> is the boolean answer
  ("Yes" or "No") to the label of the first member, the group keeps its length, a member
  that changes is one whose adjacent label text overlaps \<open>a\<close> (one contains the other,
  ignoring case), the change is that it becomes selected, and no other member changes;
  if no member overlaps \<open>a\<close>, the group is returned unchanged.
\<close>

theorem radio_group_fill:
  assumes g: "g = first # rest"
    and a: "a = answer qa (get_label_for (r_label first)) ''boolean''"
  shows "(list_ex r_selected g \<longrightarrow> fill_radio_group qa g = g)
       \<and> (\<not> list_ex r_selected g \<longrightarrow>
            (a = ''Yes'' \<or> a = ''No'')
          \<and> length (fill_radio_group qa g) = length g
          \<and> (\<forall>i < length g. fill_radio_group qa g ! i \<noteq> g ! i \<longrightarrow>
                overlaps a (g ! i)
                \<and> fill_radio_group qa g ! i = (g ! i)\<lparr> r_selected := True \<rparr>
                \<and> (\<forall>j < length g. j \<noteq> i \<longrightarrow> fill_radio_group qa g ! j = g ! j))
          \<and> (\<not> list_ex (overlaps a) g \<longrightarrow> fill_radio_group qa g = g))"
proof (intro conjI impI)
  assume "list_ex r_selected g"
  then show "fill_radio_group qa g = g"
    by (simp add: fill_radio_group_def g)
next
  assume ns: "\<not> list_ex r_selected g"
  show "a = ''Yes'' \<or> a = ''No''"
    by (simp add: a answer_def Let_def)
  have run: "fill_radio_group qa g = click_matching a g"
    using ns by (simp add: fill_radio_group_def g a Let_def)
  let ?P = "\<lambda>r. overlaps a r \<and> r_interactable r"
  show "length (fill_radio_group qa g) = length g"
    by (simp add: run click_matching_first split: option.splits)
  show "\<forall>i < length g. fill_radio_group qa g ! i \<noteq> g ! i \<longrightarrow>
                overlaps a (g ! i)
                \<and> fill_radio_group qa g ! i = (g ! i)\<lparr> r_selected := True \<rparr>
                \<and> (\<forall>j < length g. j \<noteq> i \<longrightarrow> fill_radio_group qa g ! j = g ! j)"
  proof (cases "find_first ?P g")
    case None
    then show ?thesis by (simp add: run click_matching_first)
  next
    case (Some k)
    from find_first_Some [OF Some] have k: "k < length g" "overlaps a (g ! k)" by auto
    have r: "fill_radio_group qa g = g[k := (g ! k)\<lparr> r_selected := True \<rparr>]"
      by (simp add: run click_matching_first Some)
    show ?thesis
      unfolding r using k by (auto simp: nth_list_update)
  qed
  show "fill_radio_group qa g = g" if "\<not> list_ex (overlaps a) g"
  proof -
    from that have "\<forall>r \<in> set g. \<not> ?P r" by (simp add: list_ex_iff)
    then have "find_first ?P g = None" by (simp add: find_first_None)
    then show ?thesis by (simp add: run click_matching_first)
  qed
qed

theorem radio_group_fill_witness:
  "\<not> list_ex r_selected [no_radio, yes_radio]
   \<and> length (fill_radio_group (QuestionAnswerer bare_config) [no_radio, yes_radio])
       = length [no_radio, yes_radio]
   \<and> \<not> list_ex (overlaps ''Yes'') [maybe_radio, maybe_radio]
   \<and> fill_radio_group (QuestionAnswerer bare_config) [maybe_radio, maybe_radio]
       = [maybe_radio, maybe_radio]
   \<and> list_ex r_selected [yes_radio, later_radio]
   \<and> fill_radio_group (QuestionAnswerer bare_config) [yes_radio, later_radio]
       = [yes_radio, later_radio]"
proof -
  let ?qa = "QuestionAnswerer bare_config"
  have a1: "''Yes'' = answer ?qa (get_label_for (r_label no_radio)) ''boolean''"
    by code_simp
  have a2: "''Yes'' = answer ?qa (get_label_for (r_label maybe_radio)) ''boolean''"
    by code_simp
  have a3: "''Yes'' = answer ?qa (get_label_for (r_label yes_radio)) ''boolean''"
    by code_simp
  have s1: "\<not> list_ex r_selected [no_radio, yes_radio]" by code_simp
  have s2: "\<not> list_ex r_selected [maybe_radio, maybe_radio]" by code_simp
  have o2: "\<not> list_ex (overlaps ''Yes'') [maybe_radio, maybe_radio]" by code_simp
  have s3: "list_ex r_selected [yes_radio, later_radio]" by code_simp
  note t1 = radio_group_fill [OF refl a1, of "[yes_radio]", THEN conjunct2, THEN mp, OF s1]
  note t2 = radio_group_fill [OF refl a2, of "[maybe_radio]", THEN conjunct2, THEN mp, OF s2]
  note t3 = radio_group_fill [OF refl a3, of "[later_radio]", THEN conjunct1, THEN mp, OF s3]
  note b1 = t1 [THEN conjunct2, THEN conjunct1]
  note b2 = t2 [THEN conjunct2, THEN conjunct2, THEN conjunct2, THEN mp, OF o2]
  show ?thesis
    by (intro conjI) (rule s1 b1 o2 b2 s3 t3)+
qed

end
